theory Spec2Isabelle
  imports Complex_Main "HOL-Library.Word"
begin

section \<open>JavaScript values\<close>

subsection \<open>Numbers: IEEE 754 binary64\<close>

text \<open>
  A JavaScript number is a double. A finite double is modelled by the rational it
  denotes (\<open>Fin 0\<close> is \<open>+0\<close>, \<open>NZero\<close> is \<open>-0\<close>); every arithmetic operation computes
  the exact rational result and rounds it to the nearest double, ties to the even
  mantissa, as IEEE 754 prescribes. The doubles are the values \<open>NaN\<close>, \<open>PInf\<close>,
  \<open>NInf\<close>, \<open>NZero\<close> and \<open>Fin q\<close> with \<open>representable q\<close>.
\<close>

datatype jsnum = NaN | PInf | NInf | NZero | Fin rat

function bitlength :: "int \<Rightarrow> int" where
  "bitlength n = (if n \<le> 0 then 0 else 1 + bitlength (n div 2))"
  by pat_completeness auto
termination
  by (relation "measure nat") auto

declare bitlength.simps [simp del]

definition pow2 :: "int \<Rightarrow> rat" where
  "pow2 e = (if 0 \<le> e then 2 ^ nat e else 1 / 2 ^ nat (- e))"

text \<open>The binary exponent of a positive rational: \<open>pow2 (flog2 q) \<le> q < pow2 (flog2 q + 1)\<close>.\<close>

definition flog2 :: "rat \<Rightarrow> int" where
  "flog2 q = (if 1 \<le> q then bitlength \<lfloor>q\<rfloor> - 1 else - bitlength (\<lceil>1 / q\<rceil> - 1))"

definition round_half_even :: "rat \<Rightarrow> int" where
  "round_half_even x =
     (let f = \<lfloor>x\<rfloor>; r = x - of_int f
      in if r < 1 / 2 then f else if 1 / 2 < r then f + 1 else if even f then f else f + 1)"

text \<open>
  Rounding to binary64: 53 bits of mantissa, the exponent of the unit in the last place
  no smaller than \<open>-1074\<close> (subnormal numbers), overflow to an infinity from \<open>2 ^ 1024\<close> on,
  underflow to a zero of the sign of the exact result.
\<close>

definition round_double :: "rat \<Rightarrow> jsnum" where
  "round_double q =
     (if q = 0 then Fin 0
      else let a = \<bar>q\<bar>; e = max (flog2 a) (- 1022); ulp = pow2 (e - 52);
               m = round_half_even (a / ulp)
           in if 1023 < e \<or> (e = 1023 \<and> m = 2 ^ 53) then (if q < 0 then NInf else PInf)
              else if m = 0 then (if q < 0 then NZero else Fin 0)
              else Fin (sgn q * of_int m * ulp))"

definition representable :: "rat \<Rightarrow> bool" where
  "representable q \<longleftrightarrow> round_double q = Fin q"

fun negative :: "jsnum \<Rightarrow> bool" where
  "negative NaN = False"
| "negative PInf = False"
| "negative NInf = True"
| "negative NZero = True"
| "negative (Fin q) = (q < 0)"

fun is_zero :: "jsnum \<Rightarrow> bool" where
  "is_zero NZero = True"
| "is_zero (Fin q) = (q = 0)"
| "is_zero _ = False"

fun is_inf :: "jsnum \<Rightarrow> bool" where
  "is_inf PInf = True"
| "is_inf NInf = True"
| "is_inf _ = False"

fun val :: "jsnum \<Rightarrow> rat" where
  "val (Fin q) = q"
| "val _ = 0"

definition signed_zero :: "bool \<Rightarrow> jsnum" where
  "signed_zero neg = (if neg then NZero else Fin 0)"

definition signed_inf :: "bool \<Rightarrow> jsnum" where
  "signed_inf neg = (if neg then NInf else PInf)"

text \<open>The operator \<^verbatim>\<open>+\<close> on numbers.\<close>

fun js_add :: "jsnum \<Rightarrow> jsnum \<Rightarrow> jsnum" where
  "js_add NaN y = NaN"
| "js_add x NaN = NaN"
| "js_add PInf NInf = NaN"
| "js_add NInf PInf = NaN"
| "js_add PInf y = PInf"
| "js_add x PInf = PInf"
| "js_add NInf y = NInf"
| "js_add x NInf = NInf"
| "js_add NZero y = y"
| "js_add x NZero = x"
| "js_add (Fin a) (Fin b) = round_double (a + b)"

text \<open>The operators \<^verbatim>\<open>*\<close> and \<^verbatim>\<open>/\<close> on numbers.\<close>

definition js_mul :: "jsnum \<Rightarrow> jsnum \<Rightarrow> jsnum" where
  "js_mul x y =
     (if x = NaN \<or> y = NaN then NaN
      else if (is_inf x \<and> is_zero y) \<or> (is_zero x \<and> is_inf y) then NaN
      else if is_inf x \<or> is_inf y then signed_inf (negative x \<noteq> negative y)
      else if is_zero x \<or> is_zero y then signed_zero (negative x \<noteq> negative y)
      else round_double (val x * val y))"

definition js_div :: "jsnum \<Rightarrow> jsnum \<Rightarrow> jsnum" where
  "js_div x y =
     (if x = NaN \<or> y = NaN then NaN
      else if (is_inf x \<and> is_inf y) \<or> (is_zero x \<and> is_zero y) then NaN
      else if is_inf x \<or> is_zero y then signed_inf (negative x \<noteq> negative y)
      else if is_inf y \<or> is_zero x then signed_zero (negative x \<noteq> negative y)
      else round_double (val x / val y))"

text \<open>
  \<^verbatim>\<open>Math.round\<close>: the nearest integer, a tie going towards \<open>+\<infinity>\<close>; a negative
  argument no smaller than \<open>-1/2\<close> gives \<open>-0\<close>. The result is exact: a double of magnitude
  \<open>2 ^ 52\<close> or more is an integer already.
\<close>

fun Math_round :: "jsnum \<Rightarrow> jsnum" where
  "Math_round (Fin q) =
     (let r = \<lfloor>q + 1 / 2\<rfloor> in if r = 0 \<and> q < 0 then NZero else Fin (of_int r))"
| "Math_round x = x"

text \<open>The comparisons \<^verbatim>\<open><\<close>, \<^verbatim>\<open><=\<close> and \<^verbatim>\<open>===\<close> on numbers: every comparison with \<open>NaN\<close> is false.\<close>

fun rank :: "jsnum \<Rightarrow> int" where
  "rank PInf = 1"
| "rank NInf = - 1"
| "rank _ = 0"

definition js_lt :: "jsnum \<Rightarrow> jsnum \<Rightarrow> bool" where
  "js_lt x y \<longleftrightarrow> x \<noteq> NaN \<and> y \<noteq> NaN \<and>
     (rank x < rank y \<or> (rank x = rank y \<and> val x < val y))"

definition js_le :: "jsnum \<Rightarrow> jsnum \<Rightarrow> bool" where
  "js_le x y \<longleftrightarrow> x \<noteq> NaN \<and> y \<noteq> NaN \<and>
     (rank x < rank y \<or> (rank x = rank y \<and> val x \<le> val y))"

definition js_strict_eq :: "jsnum \<Rightarrow> jsnum \<Rightarrow> bool" where
  "js_strict_eq x y \<longleftrightarrow> x \<noteq> NaN \<and> y \<noteq> NaN \<and> rank x = rank y \<and> val x = val y"

subsection \<open>Strings\<close>

text \<open>
  A JavaScript string is a sequence of UTF-16 code units. \<^verbatim>\<open>String.prototype.trim\<close> removes
  the white space and line terminator code points from both ends; all of them are single
  code units.
\<close>

type_synonym jsstring = "16 word list"

definition is_white_space :: "16 word \<Rightarrow> bool" where
  "is_white_space c \<longleftrightarrow>
     c \<in> {0x0009, 0x000A, 0x000B, 0x000C, 0x000D, 0x0020, 0x00A0, 0x1680,
          0x2028, 0x2029, 0x202F, 0x205F, 0x3000, 0xFEFF}
     \<or> (0x2000 \<le> c \<and> c \<le> 0x200A)"

definition js_trim :: "jsstring \<Rightarrow> jsstring" where
  "js_trim s = rev (dropWhile is_white_space (rev (dropWhile is_white_space s)))"

text \<open>The code units of a string literal of the source (ASCII).\<close>

definition literal :: "string \<Rightarrow> jsstring" where
  "literal cs = map of_char cs"

text \<open>
  A template literal is kept as its fragments: the conversion of an interpolated number
  to text is not unfolded.
\<close>

datatype fragment = Text string | Interp jsnum

type_synonym template = "fragment list"

subsection \<open>Values of any type\<close>

text \<open>
  The types of the source are erased when it runs, and the validators test the runtime
  type of every field of their input, so a field holds any value. \<open>JObject s\<close> stands for
  an object of any kind; \<open>s\<close> tells whether \<^verbatim>\<open>JSON.stringify\<close> serialises it, which it
  does not when the object holds a BigInt somewhere or refers to itself (a function or a
  symbol behaves like a serialised object in every test made here).
\<close>

datatype jsval =
    JUndefined
  | JNull
  | JBool bool
  | JNum (num_of: jsnum)
  | JStr (str_of: jsstring)
  | JBigInt int
  | JObject bool

text \<open>\<open>falsy v\<close> is the value of \<^verbatim>\<open>!v\<close>.\<close>

fun falsy :: "jsval \<Rightarrow> bool" where
  "falsy JUndefined = True"
| "falsy JNull = True"
| "falsy (JBool b) = (\<not> b)"
| "falsy (JNum n) = (n = NaN \<or> is_zero n)"
| "falsy (JStr s) = (s = [])"
| "falsy (JBigInt i) = (i = 0)"
| "falsy (JObject s) = False"

fun typeof :: "jsval \<Rightarrow> string" where
  "typeof JUndefined = ''undefined''"
| "typeof JNull = ''object''"
| "typeof (JBool b) = ''boolean''"
| "typeof (JNum n) = ''number''"
| "typeof (JStr s) = ''string''"
| "typeof (JBigInt i) = ''bigint''"
| "typeof (JObject s) = ''object''"

fun Number_isInteger :: "jsval \<Rightarrow> bool" where
  "Number_isInteger (JNum NZero) = True"
| "Number_isInteger (JNum (Fin q)) = (of_int \<lfloor>q\<rfloor> = q)"
| "Number_isInteger v = False"

text \<open>
  \<^verbatim>\<open>JSON.stringify\<close> of an object with the property \<open>v\<close> throws a TypeError when \<open>v\<close> is a
  BigInt or an object that is not serialised; it leaves out \<^verbatim>\<open>undefined\<close>, and writes
  \<^verbatim>\<open>null\<close>, a boolean, a number (\<^verbatim>\<open>null\<close> for \<open>NaN\<close> and the infinities) and a string.
\<close>

fun JSON_stringify_throws :: "jsval \<Rightarrow> bool" where
  "JSON_stringify_throws (JBigInt i) = True"
| "JSON_stringify_throws (JObject s) = (\<not> s)"
| "JSON_stringify_throws v = False"

section \<open>The data model (models/cart.model.ts) and the errors\<close>

record AddItemInput =
  productId :: jsval
  name :: jsval
  price :: jsval
  quantity :: jsval

text \<open>An absent optional field reads as \<open>JUndefined\<close>.\<close>

record UpdateItemInput =
  quantity :: jsval
  price :: jsval

record CartItem =
  productId :: jsnum
  name :: jsstring
  price :: jsnum
  quantity :: jsnum

record CartResponse =
  items :: "CartItem list"
  total :: jsnum
  itemCount :: jsnum

record CheckoutResponse = CartResponse +
  orderId :: template
  checkoutTime :: string

record Cart =
  items :: "CartItem list"

text \<open>
  The errors that a method throws: the three classes derived from \<^verbatim>\<open>AppError\<close>, with their
  message, and the \<^verbatim>\<open>TypeError\<close> of the runtime, which is not an \<^verbatim>\<open>AppError\<close> and has no
  \<^verbatim>\<open>statusCode\<close>.
\<close>

datatype Error =
    ValidationError template
  | NotFoundError template
  | BadRequestError template
  | TypeError

fun statusCode :: "Error \<Rightarrow> nat option" where
  "statusCode (ValidationError m) = Some 400"
| "statusCode (NotFoundError m) = Some 404"
| "statusCode (BadRequestError m) = Some 400"
| "statusCode TypeError = None"

text \<open>
  What a checkout reads from its environment: the clock (\<^verbatim>\<open>Date.now()\<close>), the generator
  of identifiers (\<^verbatim>\<open>uuidv4()\<close>) and the clock again, as text
  (\<^verbatim>\<open>new Date().toISOString()\<close>).
\<close>

record Env =
  Date_now :: jsnum
  uuidv4 :: string
  toISOString :: string

section \<open>The cart service (services/cart.service.ts)\<close>

text \<open>
  The service owns one cart. A method takes the cart and returns its outcome, the error
  thrown or the value returned, with the cart as the call leaves it.
\<close>

type_synonym 'a outcome = "(Error + 'a) \<times> Cart"

text \<open>
  \<^verbatim>\<open>logger.info(message, meta)\<close> (config/logger.ts): the format of the console transport
  calls \<^verbatim>\<open>JSON.stringify(meta)\<close> on the metadata (line 7), with the level of the logger at
  its default, \<^verbatim>\<open>info\<close>. The TypeError of \<^verbatim>\<open>JSON.stringify\<close> is not caught there nor in the
  service, so the call throws it to the method that logs. What is written to the log is
  not modelled, only whether the call returns; \<open>meta\<close> lists the values of the metadata.
\<close>

definition logger_info :: "jsval list \<Rightarrow> Error + unit" where
  "logger_info meta = (if list_ex JSON_stringify_throws meta then Inl TypeError else Inr ())"

definition new_CartService :: Cart where
  "new_CartService = \<lparr>Cart.items = []\<rparr>"

text \<open>\<^verbatim>\<open>Array.prototype.reduce\<close> with an initial value is \<^const>\<open>foldl\<close>.\<close>

definition calculateTotal :: "Cart \<Rightarrow> jsnum" where
  "calculateTotal c =
     (let total = foldl (\<lambda>sum item. js_add sum (js_mul (CartItem.price item) (CartItem.quantity item)))
                    (Fin 0) (Cart.items c)
      in js_div (Math_round (js_mul total (Fin 100))) (Fin 100))"

definition calculateItemCount :: "Cart \<Rightarrow> jsnum" where
  "calculateItemCount c =
     foldl (\<lambda>count item. js_add count (CartItem.quantity item)) (Fin 0) (Cart.items c)"

text \<open>\<^verbatim>\<open>Array.prototype.findIndex\<close>: the first index whose element passes the test, or \<open>-1\<close>.\<close>

fun findIndex :: "('a \<Rightarrow> bool) \<Rightarrow> 'a list \<Rightarrow> int" where
  "findIndex P [] = - 1"
| "findIndex P (x # xs) =
     (if P x then 0 else let i = findIndex P xs in if i < 0 then - 1 else i + 1)"

definition findItemIndex :: "Cart \<Rightarrow> jsnum \<Rightarrow> int" where
  "findItemIndex c pid =
     findIndex (\<lambda>item. js_strict_eq (CartItem.productId item) pid) (Cart.items c)"

definition validateAddItemInput :: "AddItemInput \<Rightarrow> Error + unit" where
  "validateAddItemInput input =
     (if falsy (AddItemInput.productId input)
         \<or> typeof (AddItemInput.productId input) \<noteq> ''number''
      then Inl (ValidationError [Text ''productId is required and must be a number''])
      else if falsy (AddItemInput.name input)
         \<or> typeof (AddItemInput.name input) \<noteq> ''string''
         \<or> js_trim (str_of (AddItemInput.name input)) = []
      then Inl (ValidationError [Text ''name is required and must be a non-empty string''])
      else if typeof (AddItemInput.price input) \<noteq> ''number''
         \<or> js_le (num_of (AddItemInput.price input)) (Fin 0)
      then Inl (ValidationError [Text ''price must be greater than 0''])
      else if typeof (AddItemInput.quantity input) \<noteq> ''number''
         \<or> js_lt (num_of (AddItemInput.quantity input)) (Fin 1)
         \<or> \<not> Number_isInteger (AddItemInput.quantity input)
      then Inl (ValidationError [Text ''quantity must be at least 1 and must be an integer''])
      else Inr ())"

definition validateUpdateInput :: "UpdateItemInput \<Rightarrow> Error + unit" where
  "validateUpdateInput input =
     (if UpdateItemInput.quantity input = JUndefined \<and> UpdateItemInput.price input = JUndefined
      then Inl (ValidationError [Text ''At least one field (quantity or price) must be provided''])
      else if UpdateItemInput.quantity input \<noteq> JUndefined
         \<and> (typeof (UpdateItemInput.quantity input) \<noteq> ''number''
            \<or> js_lt (num_of (UpdateItemInput.quantity input)) (Fin 1)
            \<or> \<not> Number_isInteger (UpdateItemInput.quantity input))
      then Inl (ValidationError [Text ''quantity must be at least 1 and must be an integer''])
      else if UpdateItemInput.price input \<noteq> JUndefined
         \<and> (typeof (UpdateItemInput.price input) \<noteq> ''number''
            \<or> js_le (num_of (UpdateItemInput.price input)) (Fin 0))
      then Inl (ValidationError [Text ''price must be greater than 0''])
      else Inr ())"

definition getCart :: "Cart \<Rightarrow> CartResponse" where
  "getCart c =
     \<lparr>CartResponse.items = Cart.items c, total = calculateTotal c,
      itemCount = calculateItemCount c\<rparr>"

text \<open>
  addItem and updateItem log their arguments before they validate them (lines 103 and
  136). Every other call of the logger in the service gets numbers and strings only (a
  length, a validated productId, a quantity, the orderId, the total), on which it always
  returns: these calls are left out.
\<close>

definition addItem :: "AddItemInput \<Rightarrow> Cart \<Rightarrow> CartResponse outcome" where
  "addItem input c =
     (case logger_info [AddItemInput.productId input, AddItemInput.name input] of
        Inl e \<Rightarrow> (Inl e, c)
      | Inr _ \<Rightarrow>
     (case validateAddItemInput input of
        Inl e \<Rightarrow> (Inl e, c)
      | Inr _ \<Rightarrow>
          let existingIndex = findItemIndex c (num_of (AddItemInput.productId input));
              c' =
                (if 0 \<le> existingIndex
                 then c\<lparr>Cart.items := (Cart.items c)[nat existingIndex :=
                        (Cart.items c ! nat existingIndex)\<lparr>CartItem.quantity :=
                           js_add (CartItem.quantity (Cart.items c ! nat existingIndex))
                                  (num_of (AddItemInput.quantity input))\<rparr>]\<rparr>
                 else
                   let newItem =
                         \<lparr>CartItem.productId = num_of (AddItemInput.productId input),
                          name = js_trim (str_of (AddItemInput.name input)),
                          price = num_of (AddItemInput.price input),
                          quantity = num_of (AddItemInput.quantity input)\<rparr>
                   in c\<lparr>Cart.items := Cart.items c @ [newItem]\<rparr>)
          in (Inr (getCart c'), c')))"

definition updateItem :: "jsnum \<Rightarrow> UpdateItemInput \<Rightarrow> Cart \<Rightarrow> CartResponse outcome" where
  "updateItem pid updates c =
     (case logger_info [JNum pid, UpdateItemInput.quantity updates,
                        UpdateItemInput.price updates] of
        Inl e \<Rightarrow> (Inl e, c)
      | Inr _ \<Rightarrow>
     (case validateUpdateInput updates of
        Inl e \<Rightarrow> (Inl e, c)
      | Inr _ \<Rightarrow>
          let index = findItemIndex c pid
          in if index < 0
             then (Inl (NotFoundError [Text ''Item with productId '', Interp pid,
                                       Text '' not found in cart'']), c)
             else
               let c1 =
                     (if UpdateItemInput.quantity updates \<noteq> JUndefined
                      then c\<lparr>Cart.items := (Cart.items c)[nat index :=
                             (Cart.items c ! nat index)\<lparr>CartItem.quantity :=
                                num_of (UpdateItemInput.quantity updates)\<rparr>]\<rparr>
                      else c);
                   c2 =
                     (if UpdateItemInput.price updates \<noteq> JUndefined
                      then c1\<lparr>Cart.items := (Cart.items c1)[nat index :=
                             (Cart.items c1 ! nat index)\<lparr>CartItem.price :=
                                num_of (UpdateItemInput.price updates)\<rparr>]\<rparr>
                      else c1)
               in (Inr (getCart c2), c2)))"

text \<open>\<^verbatim>\<open>items.splice(index, 1)\<close> deletes the element at \<open>index\<close>.\<close>

definition removeItem :: "jsnum \<Rightarrow> Cart \<Rightarrow> CartResponse outcome" where
  "removeItem pid c =
     (let index = findItemIndex c pid
      in if index < 0
         then (Inl (NotFoundError [Text ''Item with productId '', Interp pid,
                                   Text '' not found in cart'']), c)
         else
           let c' = c\<lparr>Cart.items := take (nat index) (Cart.items c)
                                      @ drop (nat index + 1) (Cart.items c)\<rparr>
           in (Inr (getCart c'), c'))"

definition clearCart :: "Cart \<Rightarrow> CartResponse outcome" where
  "clearCart c = (let c' = c\<lparr>Cart.items := []\<rparr> in (Inr (getCart c'), c'))"

definition checkout :: "Env \<Rightarrow> Cart \<Rightarrow> CheckoutResponse outcome" where
  "checkout env c =
     (if length (Cart.items c) = 0
      then (Inl (BadRequestError [Text ''Cannot checkout with an empty cart'']), c)
      else
        let orderSummary =
              \<lparr>CartResponse.items = Cart.items c,
               total = calculateTotal c,
               itemCount = calculateItemCount c,
               orderId = [Text ''ORD-'', Interp (Date_now env), Text ''-'',
                          Text (take 8 (uuidv4 env))],
               checkoutTime = toISOString env\<rparr>;
            c' = c\<lparr>Cart.items := []\<rparr>
        in (Inr orderSummary, c'))"

definition reset :: "Cart \<Rightarrow> Cart" where
  "reset c = \<lparr>Cart.items = []\<rparr>"

section \<open>The conditions on the fields of an input\<close>

text \<open>
  The conditions of the specification on the fields of an input, stated on values:
  a productId that is a number and not falsy, a name that is a string with something
  left after trimming, a price that is a number above zero, a price that is no number
  or a number at most zero, and a quantity that is a whole number from one on.
\<close>

fun accepted_productId :: "jsval \<Rightarrow> bool" where
  "accepted_productId (JNum n) = (n \<noteq> NaN \<and> n \<noteq> NZero \<and> n \<noteq> Fin 0)"
| "accepted_productId v = False"

fun accepted_name :: "jsval \<Rightarrow> bool" where
  "accepted_name (JStr s) = (js_trim s \<noteq> [])"
| "accepted_name v = False"

fun accepted_price :: "jsval \<Rightarrow> bool" where
  "accepted_price (JNum p) = js_lt (Fin 0) p"
| "accepted_price v = False"

fun rejected_price :: "jsval \<Rightarrow> bool" where
  "rejected_price (JNum p) = js_le p (Fin 0)"
| "rejected_price v = True"

fun accepted_quantity :: "jsval \<Rightarrow> bool" where
  "accepted_quantity (JNum (Fin q)) = (of_int \<lfloor>q\<rfloor> = q \<and> 1 \<le> q)"
| "accepted_quantity v = False"

section \<open>Sequences of calls\<close>

text \<open>
  A call of one of the mutating methods, and the cart that a sequence of calls leaves:
  a call that throws leaves the cart as the method does.
\<close>

datatype operation =
    AddItem AddItemInput
  | UpdateItem jsnum UpdateItemInput
  | RemoveItem jsnum
  | ClearCart
  | Checkout Env

fun perform :: "operation \<Rightarrow> Cart \<Rightarrow> Cart" where
  "perform (AddItem input) c = snd (addItem input c)"
| "perform (UpdateItem pid updates) c = snd (updateItem pid updates c)"
| "perform (RemoveItem pid) c = snd (removeItem pid c)"
| "perform ClearCart c = snd (clearCart c)"
| "perform (Checkout env) c = snd (checkout env c)"

fun run :: "operation list \<Rightarrow> Cart \<Rightarrow> Cart" where
  "run [] c = c"
| "run (operation # operations) c = run operations (perform operation c)"



section \<open>The total and the item count of the specification\<close>

text \<open>
  The total and the item count as the specification words them, in exact arithmetic on
  the values of the items: the sum of the quantities, and the sum of price times
  quantity rounded to the cent, a half going up.
\<close>

definition spec_itemCount :: "CartItem list \<Rightarrow> rat" where
  "spec_itemCount its = sum_list (map (\<lambda>item. val (CartItem.quantity item)) its)"

definition spec_subtotal :: "CartItem list \<Rightarrow> rat" where
  "spec_subtotal its =
     sum_list (map (\<lambda>item. val (CartItem.price item) * val (CartItem.quantity item)) its)"

definition round_half_up_cents :: "rat \<Rightarrow> rat" where
  "round_half_up_cents x = of_int \<lfloor>x * 100 + 1 / 2\<rfloor> / 100"

definition spec_total :: "CartItem list \<Rightarrow> rat" where
  "spec_total its = round_half_up_cents (spec_subtotal its)"

text \<open>
  The carts on which the arithmetic of the total does not round: every price and
  quantity is a positive finite number, and every product, every partial sum and one
  hundred times the sum are doubles.
\<close>

fun positive_finite :: "jsnum \<Rightarrow> bool" where
  "positive_finite (Fin q) = (0 < q)"
| "positive_finite x = False"

fun no_rounding_in_total :: "rat \<Rightarrow> CartItem list \<Rightarrow> bool" where
  "no_rounding_in_total acc [] = representable (acc * 100)"
| "no_rounding_in_total acc (item # rest) =
     (positive_finite (CartItem.price item) \<and> positive_finite (CartItem.quantity item)
      \<and> representable (val (CartItem.price item) * val (CartItem.quantity item))
      \<and> representable (acc + val (CartItem.price item) * val (CartItem.quantity item))
      \<and> no_rounding_in_total
           (acc + val (CartItem.price item) * val (CartItem.quantity item)) rest)"

text \<open>
  Prices in whole cents and whole quantities: a price that is the double nearest to a
  positive whole number of cents, the number of cents of a price, and the total of a
  list of items in cents.
\<close>

fun whole_quantity :: "jsnum \<Rightarrow> bool" where
  "whole_quantity (Fin q) = (1 \<le> q \<and> of_int \<lfloor>q\<rfloor> = q)"
| "whole_quantity x = False"

definition cents :: "jsnum \<Rightarrow> int" where
  "cents x = \<lfloor>val x * 100 + 1 / 2\<rfloor>"

fun cent_price :: "jsnum \<Rightarrow> bool" where
  "cent_price (Fin p) = (0 < p \<and> round_double (of_int (cents (Fin p)) / 100) = Fin p)"
| "cent_price x = False"

definition exact_cents :: "CartItem list \<Rightarrow> int" where
  "exact_cents its =
     sum_list (map (\<lambda>item. cents (CartItem.price item) * \<lfloor>val (CartItem.quantity item)\<rfloor>) its)"

definition cent_item :: "CartItem \<Rightarrow> bool" where
  "cent_item item \<longleftrightarrow>
     cent_price (CartItem.price item) \<and> whole_quantity (CartItem.quantity item)"

section \<open>Sample data\<close>

text \<open>The items, inputs and carts at which the theorems below are instantiated.\<close>

definition milk :: CartItem where
  "milk = \<lparr>CartItem.productId = Fin 1, name = literal ''Milk'', price = Fin (5 / 2),
           quantity = Fin 4\<rparr>"

definition bread :: CartItem where
  "bread = \<lparr>CartItem.productId = Fin 2, name = literal ''Bread'', price = Fin (1 / 8),
            quantity = Fin 1\<rparr>"

definition milk_input :: AddItemInput where
  "milk_input = \<lparr>AddItemInput.productId = JNum (Fin 1), name = JStr (literal ''  Milk  ''),
                 price = JNum (Fin (5 / 2)), quantity = JNum (Fin 2)\<rparr>"

definition bread_input :: AddItemInput where
  "bread_input = \<lparr>AddItemInput.productId = JNum (Fin 2), name = JStr (literal ''Bread''),
                  price = JNum (Fin (1 / 8)), quantity = JNum (Fin 3)\<rparr>"


definition sample_env :: Env where
  "sample_env = \<lparr>Date_now = Fin 1700000000000,
                 uuidv4 = ''123e4567-e89b-42d3-a456-426614174000'',
                 toISOString = ''2023-11-14T22:13:20.000Z''\<rparr>"

definition set_quantity_4 :: UpdateItemInput where
  "set_quantity_4 = \<lparr>UpdateItemInput.quantity = JNum (Fin 4), price = JUndefined\<rparr>"

definition set_both :: UpdateItemInput where
  "set_both = \<lparr>UpdateItemInput.quantity = JNum (Fin 7), price = JNum (Fin (3 / 4))\<rparr>"

definition no_productId :: AddItemInput where
  "no_productId = milk_input\<lparr>AddItemInput.productId := JUndefined\<rparr>"

definition blank_name :: AddItemInput where
  "blank_name = milk_input\<lparr>AddItemInput.name := JStr (literal ''   '')\<rparr>"

definition price_zero :: AddItemInput where
  "price_zero = milk_input\<lparr>AddItemInput.price := JNum (Fin 0)\<rparr>"

definition fractional_quantity :: AddItemInput where
  "fractional_quantity = milk_input\<lparr>AddItemInput.quantity := JNum (Fin (3 / 2))\<rparr>"

definition no_fields :: UpdateItemInput where
  "no_fields = \<lparr>UpdateItemInput.quantity = JUndefined, price = JUndefined\<rparr>"

definition quantity_zero :: UpdateItemInput where
  "quantity_zero = \<lparr>UpdateItemInput.quantity = JNum (Fin 0), price = JUndefined\<rparr>"

definition negative_price :: UpdateItemInput where
  "negative_price = \<lparr>UpdateItemInput.quantity = JNum (Fin 4), price = JNum (Fin (- 1))\<rparr>"

definition all_fields_bad :: AddItemInput where
  "all_fields_bad = \<lparr>AddItemInput.productId = JNum (Fin 0), name = JStr [],
                     price = JNum (Fin 0), quantity = JNum (Fin 0)\<rparr>"

definition productId_NaN :: AddItemInput where
  "productId_NaN = milk_input\<lparr>AddItemInput.productId := JNum NaN\<rparr>"

definition productId_minus_3 :: AddItemInput where
  "productId_minus_3 = milk_input\<lparr>AddItemInput.productId := JNum (Fin (- 3))\<rparr>"

definition productId_1_5 :: AddItemInput where
  "productId_1_5 = milk_input\<lparr>AddItemInput.productId := JNum (Fin (3 / 2))\<rparr>"

definition productId_zero :: AddItemInput where
  "productId_zero = milk_input\<lparr>AddItemInput.productId := JNum (Fin 0)\<rparr>"

definition huge_quantity :: AddItemInput where
  "huge_quantity = \<lparr>AddItemInput.productId = JNum (Fin 1), name = JStr (literal ''Rice''),
                    price = JNum (Fin 1), quantity = JNum (Fin 9007199254740992)\<rparr>"

definition more_rice :: AddItemInput where
  "more_rice = huge_quantity\<lparr>AddItemInput.quantity := JNum (Fin 1)\<rparr>"

definition rice_cart :: Cart where
  "rice_cart = run [AddItem huge_quantity] new_CartService"

definition one_of :: "rat \<Rightarrow> AddItemInput" where
  "one_of pid = \<lparr>AddItemInput.productId = JNum (Fin pid), name = JStr (literal ''Salt''),
                 price = JNum (Fin 1), quantity = JNum (Fin 1)\<rparr>"

definition big_cart :: Cart where
  "big_cart = run [AddItem huge_quantity, AddItem (one_of 2), AddItem (one_of 3)] new_CartService"


definition milk_2 :: CartItem where
  "milk_2 = \<lparr>CartItem.productId = Fin 1, name = literal ''Milk'', price = Fin (5 / 2),
             quantity = Fin 2\<rparr>"

definition bread_199 :: CartItem where
  "bread_199 = \<lparr>CartItem.productId = Fin 2, name = literal ''Bread'',
                price = round_double (199 / 100), quantity = Fin 1\<rparr>"

section \<open>Auxiliary facts\<close>

subsection \<open>Searching the cart, and the empty cart\<close>

lemma findIndex_ge: "- 1 \<le> findIndex P xs"
  by (induction xs) (auto simp: Let_def)


lemma findIndex_absent: "\<forall>x \<in> set xs. \<not> P x \<Longrightarrow> findIndex P xs = - 1"
  by (induction xs) (auto simp: Let_def)

lemma findIndex_first:
  "i < length xs \<Longrightarrow> P (xs ! i) \<Longrightarrow> \<forall>j < i. \<not> P (xs ! j) \<Longrightarrow> findIndex P xs = int i"
proof (induction xs arbitrary: i)
  case Nil
  then show ?case by simp
next
  case (Cons x xs)
  show ?case
  proof (cases i)
    case 0
    with Cons.prems show ?thesis by simp
  next
    case (Suc k)
    with Cons.prems have "\<not> P x" by auto
    moreover from Suc Cons.prems have "findIndex P xs = int k"
      by (intro Cons.IH) auto
    ultimately show ?thesis using Suc by (simp add: Let_def)
  qed
qed

lemma findIndex_found:
  assumes "0 \<le> findIndex P xs"
  shows "nat (findIndex P xs) < length xs" and "P (xs ! nat (findIndex P xs))"
    and "\<forall>j < nat (findIndex P xs). \<not> P (xs ! j)"
  using assms
proof (induction xs)
  case Nil
  { case 1 then show ?case by simp }
  { case 2 then show ?case by simp }
  { case 3 then show ?case by simp }
next
  case (Cons x xs)
  { case 1 with Cons.IH(1) show ?case by (auto simp: Let_def nat_add_distrib split: if_splits) }
  { case 2 with Cons.IH(2) show ?case by (auto simp: Let_def nat_add_distrib split: if_splits) }
  { case 3 with Cons.IH(3) show ?case by (auto simp: Let_def nat_add_distrib less_Suc_eq_0_disj split: if_splits) }
qed

lemma typeof_number_iff: "typeof v = ''number'' \<longleftrightarrow> (\<exists>n. v = JNum n)"
  by (cases v) auto

lemma typeof_string_iff: "typeof v = ''string'' \<longleftrightarrow> (\<exists>s. v = JStr s)"
  by (cases v) auto

lemma validateAddItemInput_shape:
  assumes "validateAddItemInput input = Inr ()"
  shows "\<exists>pid nm p q. AddItemInput.productId input = JNum pid \<and> AddItemInput.name input = JStr nm
           \<and> AddItemInput.price input = JNum p \<and> AddItemInput.quantity input = JNum q"
  using assms unfolding validateAddItemInput_def
  by (auto simp: typeof_number_iff typeof_string_iff split: if_splits)

lemma validateUpdateInput_shape:
  assumes "validateUpdateInput u = Inr ()"
  shows "(UpdateItemInput.quantity u = JUndefined \<or> (\<exists>q. UpdateItemInput.quantity u = JNum q))
       \<and> (UpdateItemInput.price u = JUndefined \<or> (\<exists>p. UpdateItemInput.price u = JNum p))"
  using assms unfolding validateUpdateInput_def
  by (auto simp: typeof_number_iff split: if_splits)

lemma Math_round_zero: "Math_round (Fin 0) = Fin 0"
proof -
  have "\<lfloor>1 / 2 :: rat\<rfloor> = 0" by (simp add: floor_eq_iff)
  then show ?thesis by simp
qed

lemma calculateTotal_empty: "Cart.items c = [] \<Longrightarrow> calculateTotal c = Fin 0"
  by (simp add: calculateTotal_def js_mul_def js_div_def signed_zero_def Math_round_zero
        del: Math_round.simps)

lemma calculateItemCount_empty: "Cart.items c = [] \<Longrightarrow> calculateItemCount c = Fin 0"
  by (simp add: calculateItemCount_def)

lemma getCart_empty:
  "Cart.items c = [] \<Longrightarrow> getCart c = \<lparr>CartResponse.items = [], total = Fin 0, itemCount = Fin 0\<rparr>"
  by (simp add: getCart_def calculateTotal_empty calculateItemCount_empty)

lemma findItemIndex_first:
  assumes "i < length (Cart.items c)"
    and "js_strict_eq (CartItem.productId (Cart.items c ! i)) pid"
    and "\<forall>j < i. \<not> js_strict_eq (CartItem.productId (Cart.items c ! j)) pid"
  shows "findItemIndex c pid = int i"
  unfolding findItemIndex_def using assms by (intro findIndex_first) auto

lemma findItemIndex_absent:
  assumes "\<forall>item \<in> set (Cart.items c). \<not> js_strict_eq (CartItem.productId item) pid"
  shows "findItemIndex c pid = - 1"
  unfolding findItemIndex_def using assms by (intro findIndex_absent) auto

subsection \<open>The validators\<close>

lemma falsy_number: "falsy (JNum n) \<longleftrightarrow> n = NaN \<or> n = NZero \<or> n = Fin 0"
  by (cases n) auto

lemma productId_check:
  "falsy v \<or> typeof v \<noteq> ''number'' \<longleftrightarrow> \<not> accepted_productId v"
  by (cases v) (auto simp: falsy_number simp del: falsy.simps)

lemma name_check:
  "falsy v \<or> typeof v \<noteq> ''string'' \<or> js_trim (str_of v) = [] \<longleftrightarrow> \<not> accepted_name v"
  by (cases v) (auto simp: js_trim_def)

lemma price_check:
  "typeof v \<noteq> ''number'' \<or> js_le (num_of v) (Fin 0) \<longleftrightarrow> rejected_price v"
  by (cases v) auto

lemma accepted_price_not_rejected: "accepted_price v \<Longrightarrow> \<not> rejected_price v"
  by (cases v) (auto simp: js_lt_def js_le_def)

lemma quantity_check:
  "typeof v \<noteq> ''number'' \<or> js_lt (num_of v) (Fin 1) \<or> \<not> Number_isInteger v
     \<longleftrightarrow> \<not> accepted_quantity v"
proof (cases v)
  case (JNum n)
  then show ?thesis by (cases n) (auto simp: js_lt_def)
qed auto

lemma validateAddItemInput_chain:
  "validateAddItemInput input =
     (if \<not> accepted_productId (AddItemInput.productId input)
      then Inl (ValidationError [Text ''productId is required and must be a number''])
      else if \<not> accepted_name (AddItemInput.name input)
      then Inl (ValidationError [Text ''name is required and must be a non-empty string''])
      else if rejected_price (AddItemInput.price input)
      then Inl (ValidationError [Text ''price must be greater than 0''])
      else if \<not> accepted_quantity (AddItemInput.quantity input)
      then Inl (ValidationError [Text ''quantity must be at least 1 and must be an integer''])
      else Inr ())"
  unfolding validateAddItemInput_def productId_check name_check price_check quantity_check
  by simp

lemma validateUpdateInput_chain:
  "validateUpdateInput input =
     (if UpdateItemInput.quantity input = JUndefined \<and> UpdateItemInput.price input = JUndefined
      then Inl (ValidationError [Text ''At least one field (quantity or price) must be provided''])
      else if UpdateItemInput.quantity input \<noteq> JUndefined
              \<and> \<not> accepted_quantity (UpdateItemInput.quantity input)
      then Inl (ValidationError [Text ''quantity must be at least 1 and must be an integer''])
      else if UpdateItemInput.price input \<noteq> JUndefined
              \<and> rejected_price (UpdateItemInput.price input)
      then Inl (ValidationError [Text ''price must be greater than 0''])
      else Inr ())"
  unfolding validateUpdateInput_def price_check quantity_check
  by simp

lemma logger_info_returns:
  "logger_info meta = Inr () \<longleftrightarrow> (\<forall>v \<in> set meta. \<not> JSON_stringify_throws v)"
  by (simp add: logger_info_def list_ex_iff)

lemma accepted_productId_serialised: "accepted_productId v \<Longrightarrow> \<not> JSON_stringify_throws v"
  by (cases v) auto

lemma accepted_name_serialised: "accepted_name v \<Longrightarrow> \<not> JSON_stringify_throws v"
  by (cases v) auto

lemma accepted_quantity_serialised: "accepted_quantity v \<Longrightarrow> \<not> JSON_stringify_throws v"
  by (cases v) auto

lemma accepted_price_serialised: "\<not> rejected_price v \<Longrightarrow> \<not> JSON_stringify_throws v"
  by (cases v) auto

lemma valid_add_logged:
  assumes "validateAddItemInput input = Inr ()"
  shows "logger_info [AddItemInput.productId input, AddItemInput.name input] = Inr ()"
proof -
  from assms have "accepted_productId (AddItemInput.productId input)"
    and "accepted_name (AddItemInput.name input)"
    by (simp_all add: validateAddItemInput_chain split: if_splits)
  then show ?thesis
    by (simp add: logger_info_returns accepted_productId_serialised accepted_name_serialised)
qed

lemma valid_update_logged:
  assumes "validateUpdateInput updates = Inr ()"
  shows "logger_info [JNum pid, UpdateItemInput.quantity updates,
                      UpdateItemInput.price updates] = Inr ()"
proof -
  from assms have "UpdateItemInput.quantity updates = JUndefined
      \<or> accepted_quantity (UpdateItemInput.quantity updates)"
    and "UpdateItemInput.price updates = JUndefined
      \<or> \<not> rejected_price (UpdateItemInput.price updates)"
    by (simp_all add: validateUpdateInput_chain split: if_splits)
  then show ?thesis
    by (auto simp: logger_info_returns accepted_quantity_serialised accepted_price_serialised)
qed

lemma addItem_validated:
  assumes "validateAddItemInput input = Inr ()"
  shows "addItem input c =
     (let existingIndex = findItemIndex c (num_of (AddItemInput.productId input));
          c' =
            (if 0 \<le> existingIndex
             then c\<lparr>Cart.items := (Cart.items c)[nat existingIndex :=
                    (Cart.items c ! nat existingIndex)\<lparr>CartItem.quantity :=
                       js_add (CartItem.quantity (Cart.items c ! nat existingIndex))
                              (num_of (AddItemInput.quantity input))\<rparr>]\<rparr>
             else c\<lparr>Cart.items := Cart.items c @
                    [\<lparr>CartItem.productId = num_of (AddItemInput.productId input),
                      name = js_trim (str_of (AddItemInput.name input)),
                      price = num_of (AddItemInput.price input),
                      quantity = num_of (AddItemInput.quantity input)\<rparr>]\<rparr>)
      in (Inr (getCart c'), c'))"
  unfolding addItem_def valid_add_logged [OF assms] assms by (simp add: Let_def)

lemma updateItem_validated:
  assumes "validateUpdateInput updates = Inr ()"
  shows "updateItem pid updates c =
     (let index = findItemIndex c pid
      in if index < 0
         then (Inl (NotFoundError [Text ''Item with productId '', Interp pid,
                                   Text '' not found in cart'']), c)
         else
           let c1 =
                 (if UpdateItemInput.quantity updates \<noteq> JUndefined
                  then c\<lparr>Cart.items := (Cart.items c)[nat index :=
                         (Cart.items c ! nat index)\<lparr>CartItem.quantity :=
                            num_of (UpdateItemInput.quantity updates)\<rparr>]\<rparr>
                  else c);
               c2 =
                 (if UpdateItemInput.price updates \<noteq> JUndefined
                  then c1\<lparr>Cart.items := (Cart.items c1)[nat index :=
                         (Cart.items c1 ! nat index)\<lparr>CartItem.price :=
                            num_of (UpdateItemInput.price updates)\<rparr>]\<rparr>
                  else c1)
           in (Inr (getCart c2), c2))"
  unfolding updateItem_def valid_update_logged [OF assms] assms by simp

lemma addItem_invalid:
  assumes "\<not> JSON_stringify_throws (AddItemInput.productId input)"
    and "\<not> JSON_stringify_throws (AddItemInput.name input)"
    and "validateAddItemInput input = Inl e"
  shows "addItem input c = (Inl e, c)"
  using assms by (simp add: addItem_def logger_info_def)

lemma updateItem_invalid:
  assumes "\<not> JSON_stringify_throws (UpdateItemInput.quantity updates)"
    and "\<not> JSON_stringify_throws (UpdateItemInput.price updates)"
    and "validateUpdateInput updates = Inl e"
  shows "updateItem pid updates c = (Inl e, c)"
  using assms by (simp add: updateItem_def logger_info_def)

lemma addItem_not_logged:
  assumes "JSON_stringify_throws (AddItemInput.productId input)
           \<or> JSON_stringify_throws (AddItemInput.name input)"
  shows "addItem input c = (Inl TypeError, c)"
  using assms by (auto simp: addItem_def logger_info_def)

lemma updateItem_not_logged:
  assumes "JSON_stringify_throws (UpdateItemInput.quantity updates)
           \<or> JSON_stringify_throws (UpdateItemInput.price updates)"
  shows "updateItem pid updates c = (Inl TypeError, c)"
  using assms by (auto simp: updateItem_def logger_info_def)

lemma addItem_throws_unchanged:
  "fst (addItem input c) = Inl e \<Longrightarrow> snd (addItem input c) = c"
  by (auto simp: addItem_def Let_def split: sum.splits)

lemma updateItem_throws_unchanged:
  "fst (updateItem pid updates c) = Inl e \<Longrightarrow> snd (updateItem pid updates c) = c"
  by (auto simp: updateItem_def Let_def split: sum.splits if_splits)

lemma js_strict_eq_truthy:
  assumes "js_strict_eq a b" and "b \<noteq> NaN" and "b \<noteq> NZero" and "b \<noteq> Fin 0"
  shows "a = b"
  using assms by (cases a; cases b) (auto simp: js_strict_eq_def)


subsection \<open>The invariant of the cart\<close>






lemma map_update_same: "(map f xs)[i := f (xs ! i)] = map f xs"
  by (induction xs arbitrary: i) (auto split: nat.split)

lemma map_productId_update_quantity:
  "map CartItem.productId (xs[i := (xs ! i)\<lparr>CartItem.quantity := q\<rparr>]) = map CartItem.productId xs"
  by (simp add: map_update map_update_same)



lemma addItem_existing_productIds:
  assumes "0 \<le> findItemIndex c pid"
  shows "map CartItem.productId
           ((Cart.items c)[nat (findItemIndex c pid) :=
              (Cart.items c ! nat (findItemIndex c pid))\<lparr>CartItem.quantity := q\<rparr>])
         = map CartItem.productId (Cart.items c)"
  by (rule map_productId_update_quantity)







subsection \<open>Rounding to a double\<close>

lemma bitlength_nonneg: "0 \<le> bitlength n"
proof (induction n rule: bitlength.induct)
  case (1 n)
  then show ?case by (simp add: bitlength.simps [of n])
qed

lemma bitlength_pos: "0 < n \<Longrightarrow> 1 \<le> bitlength n"
  using bitlength_nonneg [of "n div 2"] by (simp add: bitlength.simps [of n])

lemma bitlength_bounds:
  assumes "0 < n"
  shows "2 ^ nat (bitlength n - 1) \<le> n \<and> n < 2 ^ nat (bitlength n)"
  using assms
proof (induction n rule: bitlength.induct)
  case (1 n)
  show ?case
  proof (cases "n div 2 \<le> 0")
    case True
    with "1.prems" have "n = 1" by linarith
    then show ?thesis by (simp add: bitlength.simps [of 1] bitlength.simps [of 0])
  next
    case False
    then have pos: "0 < n div 2" by simp
    let ?b = "bitlength (n div 2)"
    from "1.IH" "1.prems" pos have lo: "2 ^ nat (?b - 1) \<le> n div 2" and hi: "n div 2 < 2 ^ nat ?b"
      by simp_all
    have b: "1 \<le> ?b" using pos by (rule bitlength_pos)
    have eq: "bitlength n = 1 + ?b" using "1.prems" by (simp add: bitlength.simps [of n])
    have "nat (bitlength n - 1) = Suc (nat (?b - 1))" using b eq by simp
    then have "2 ^ nat (bitlength n - 1) = 2 * (2::int) ^ nat (?b - 1)" by simp
    also have "\<dots> \<le> 2 * (n div 2)" using lo by simp
    also have "\<dots> \<le> n" by simp
    finally have l: "2 ^ nat (bitlength n - 1) \<le> n" .
    have "nat (bitlength n) = Suc (nat ?b)" using b eq by simp
    then have "(2::int) ^ nat (bitlength n) = 2 * 2 ^ nat ?b" by simp
    moreover have "n < 2 * 2 ^ nat ?b" using hi by linarith
    ultimately have "n < 2 ^ nat (bitlength n)" by simp
    with l show ?thesis by simp
  qed
qed

lemma pow2_pos: "0 < pow2 e"
  by (simp add: pow2_def)

lemma pow2_add: "pow2 (a + b) = pow2 a * pow2 b"
proof -
  have "pow2 e = 2 powi e" for e
    by (simp add: pow2_def power_int_def field_simps)
  then show ?thesis by (simp add: power_int_add)
qed

lemma pow2_0: "pow2 0 = 1"
  by (simp add: pow2_def)

lemma pow2_nat: "pow2 (int n) = 2 ^ n"
  by (simp add: pow2_def)

lemma pow2_minus: "pow2 (- e) = 1 / pow2 e"
proof -
  have "pow2 (- e) * pow2 e = 1"
    using pow2_add [of "- e" e] by (simp add: pow2_0)
  then show ?thesis using pow2_pos [of e] by (simp add: field_simps)
qed

lemma pow2_mono: "a \<le> b \<Longrightarrow> pow2 a \<le> pow2 b"
proof -
  assume "a \<le> b"
  then obtain k where b: "b = a + int k" by (metis nonneg_int_cases zle_iff_zadd)
  have "1 \<le> (2::rat) ^ k" by simp
  then show ?thesis
    unfolding b pow2_add pow2_nat using pow2_pos [of a] by (simp add: mult_le_cancel_left1)
qed

lemma pow2_less_iff: "pow2 a < pow2 b \<Longrightarrow> a < b"
  using pow2_mono [of b a] by (cases "a < b") auto

lemma flog2_bounds:
  assumes "0 < q"
  shows "pow2 (flog2 q) \<le> q \<and> q < pow2 (flog2 q + 1)"
proof (cases "1 \<le> q")
  case True
  let ?n = "\<lfloor>q\<rfloor>"
  from True have n: "0 < ?n" by simp
  note b = bitlength_bounds [OF n]
  have bl: "1 \<le> bitlength ?n" using n by (rule bitlength_pos)
  have e: "flog2 q = bitlength ?n - 1" using True by (simp add: flog2_def)
  have "pow2 (flog2 q) = 2 ^ nat (bitlength ?n - 1)"
    using bl by (simp add: e pow2_def)
  also have "\<dots> = of_int (2 ^ nat (bitlength ?n - 1))" by simp
  also have "\<dots> \<le> of_int ?n" using b by (simp only: of_int_le_iff)
  also have "\<dots> \<le> q" by simp
  finally have lo: "pow2 (flog2 q) \<le> q" .
  from b have "?n + 1 \<le> 2 ^ nat (bitlength ?n)" by simp
  then have "of_int (?n + 1) \<le> (of_int (2 ^ nat (bitlength ?n)) :: rat)"
    by (simp only: of_int_le_iff)
  moreover have "q < of_int (?n + 1)" by linarith
  ultimately have "q < of_int (2 ^ nat (bitlength ?n))" by linarith
  moreover have "pow2 (flog2 q + 1) = 2 ^ nat (bitlength ?n)"
    using bl by (simp add: e pow2_def)
  ultimately have "q < pow2 (flog2 q + 1)" by simp
  with lo show ?thesis by simp
next
  case False
  let ?r = "1 / q"
  let ?m = "\<lceil>?r\<rceil> - 1"
  from False assms have r: "1 < ?r" by simp
  then have m: "0 < ?m" by linarith
  note b = bitlength_bounds [OF m]
  let ?k = "bitlength ?m"
  have k: "1 \<le> ?k" using m by (rule bitlength_pos)
  have e: "flog2 q = - ?k" using False by (simp add: flog2_def)
  have "?r \<le> of_int (?m + 1)" by simp
  also have "of_int (?m + 1) \<le> (of_int (2 ^ nat ?k) :: rat)"
    using b by (simp only: of_int_le_iff) simp
  finally have "?r \<le> 2 ^ nat ?k" by simp
  then have "1 / 2 ^ nat ?k \<le> q"
    using assms by (simp add: field_simps)
  moreover have "pow2 (flog2 q) = 1 / 2 ^ nat ?k"
    using k by (simp add: e pow2_def)
  ultimately have lo: "pow2 (flog2 q) \<le> q" by simp
  have "(of_int (2 ^ nat (?k - 1)) :: rat) \<le> of_int ?m"
    using b by (simp only: of_int_le_iff)
  moreover have "of_int ?m < ?r" by linarith
  ultimately have "2 ^ nat (?k - 1) < ?r" by simp
  then have "q < 1 / 2 ^ nat (?k - 1)"
    using assms by (simp add: field_simps)
  moreover have "pow2 (flog2 q + 1) = 1 / 2 ^ nat (?k - 1)"
  proof (cases "?k = 1")
    case True
    then show ?thesis by (simp add: e pow2_def)
  next
    case False
    with k have "nat (?k - 1) = nat (- (- ?k + 1))" and "\<not> 0 \<le> - ?k + 1" by simp_all
    then show ?thesis by (simp add: e pow2_def)
  qed
  ultimately have "q < pow2 (flog2 q + 1)" by simp
  with lo show ?thesis by simp
qed

lemma round_half_even_of_int: "round_half_even (of_int n) = n"
  by (simp add: round_half_even_def)

lemma round_half_even_error: "\<bar>of_int (round_half_even x) - x\<bar> \<le> 1 / 2"
proof -
  have "of_int \<lfloor>x\<rfloor> \<le> x" and "x < of_int \<lfloor>x\<rfloor> + 1" by linarith+
  then show ?thesis
    by (auto simp: round_half_even_def Let_def abs_le_iff)
qed

lemma round_half_even_ge:
  assumes "of_int a \<le> x"
  shows "a \<le> round_half_even x"
proof -
  from assms have "a \<le> \<lfloor>x\<rfloor>" by (simp add: le_floor_iff)
  then show ?thesis by (auto simp: round_half_even_def Let_def)
qed

lemma round_double_pos:
  assumes x: "0 < x"
    and e: "max (flog2 x) (- 1022) = e" and range: "e \<le> 1022"
    and m: "round_half_even (x / pow2 (e - 52)) = m" and pos: "0 < m"
  shows "round_double x = Fin (of_int m * pow2 (e - 52))"
  using x e range m pos by (simp add: round_double_def Let_def)

lemma round_double_exact:
  assumes x: "0 < x"
    and e: "max (flog2 x) (- 1022) = e" and range: "e \<le> 1022"
    and k: "x / pow2 (e - 52) = of_int k"
  shows "representable x"
proof -
  have "0 < x / pow2 (e - 52)" using x pow2_pos by simp
  then have pos: "0 < k" by (simp add: k)
  have "round_half_even (x / pow2 (e - 52)) = k"
    by (simp add: k round_half_even_of_int)
  from round_double_pos [OF x e range this pos]
  have "round_double x = Fin (of_int k * pow2 (e - 52))" .
  also have "of_int k * pow2 (e - 52) = x"
    using k pow2_pos [of "e - 52"] by (simp add: field_simps)
  finally show ?thesis by (simp add: representable_def)
qed

lemma flog2_unique:
  assumes "pow2 e \<le> q" and "q < pow2 (e + 1)"
  shows "flog2 q = e"
proof -
  have q: "0 < q" using assms(1) pow2_pos [of e] by linarith
  note b = flog2_bounds [OF q]
  have "pow2 e < pow2 (flog2 q + 1)" using assms(1) b by linarith
  then have "e < flog2 q + 1" by (rule pow2_less_iff)
  moreover have "pow2 (flog2 q) < pow2 (e + 1)" using assms(2) b by linarith
  then have "flog2 q < e + 1" by (rule pow2_less_iff)
  ultimately show ?thesis by simp
qed

lemma representable_of_int:
  assumes "1 \<le> n" and "n \<le> 2 ^ 53"
  shows "representable (of_int n)"
proof -
  let ?x = "of_int n :: rat"
  let ?e = "flog2 ?x"
  have x: "0 < ?x" using assms(1) by simp
  note b = flog2_bounds [OF x]
  have "pow2 0 \<le> ?x" using assms(1) by (simp add: pow2_0)
  with b have "pow2 0 < pow2 (?e + 1)" by linarith
  then have "0 < ?e + 1" by (rule pow2_less_iff)
  then have lo: "0 \<le> ?e" by simp
  have "?x \<le> of_int (2 ^ 53)" using assms(2) by (simp only: of_int_le_iff)
  also have "(of_int (2 ^ 53) :: rat) = pow2 53" by (simp add: pow2_def)
  finally have le53: "?x \<le> pow2 53" .
  have "pow2 53 < pow2 54" by (simp add: pow2_def)
  with b le53 have "pow2 ?e < pow2 54" by linarith
  then have "?e < 54" by (rule pow2_less_iff)
  then have hi: "?e \<le> 53" by simp
  have e: "max ?e (- 1022) = ?e" using lo by simp
  have range: "?e \<le> 1022" using hi by simp
  show ?thesis
  proof (cases "?e \<le> 52")
    case True
    then obtain d where d: "52 - ?e = int d" using nonneg_int_cases [of "52 - ?e"] by auto
    have "?x / pow2 (?e - 52) = ?x * pow2 (52 - ?e)"
      using pow2_minus [of "?e - 52"] by simp
    also have "\<dots> = of_int (n * 2 ^ d)" by (simp add: d pow2_nat)
    finally show ?thesis by (rule round_double_exact [OF x e range])
  next
    case False
    with hi have e53: "?e = 53" by simp
    with b have "pow2 53 \<le> ?x" by simp
    with le53 have "?x = pow2 53" by simp
    then have xv: "?x = 2 ^ 53" by (simp add: pow2_def)
    have ulp: "pow2 (?e - 52) = 2" by (simp add: e53 pow2_def)
    have "?x / pow2 (?e - 52) = of_int (2 ^ 52)"
      by (simp only: ulp) (simp add: xv)
    then show ?thesis by (rule round_double_exact [OF x e range])
  qed
qed

lemma round_double_error:
  assumes lo: "pow2 (- 1022) \<le> x" and hi: "x < pow2 1023"
  shows "\<exists>y. round_double x = Fin y \<and> 0 < y \<and> \<bar>y - x\<bar> \<le> x / 2 ^ 53"
proof -
  have x: "0 < x" using lo pow2_pos [of "- 1022"] by linarith
  let ?e = "flog2 x"
  note b = flog2_bounds [OF x]
  have "pow2 (- 1022) < pow2 (?e + 1)" using lo b by linarith
  then have "- 1022 < ?e + 1" by (rule pow2_less_iff)
  then have e: "max ?e (- 1022) = ?e" by simp
  have "pow2 ?e < pow2 1023" using hi b by linarith
  then have "?e < 1023" by (rule pow2_less_iff)
  then have range: "?e \<le> 1022" by simp
  let ?ulp = "pow2 (?e - 52)"
  let ?m = "round_half_even (x / ?ulp)"
  have ulp: "0 < ?ulp" by (rule pow2_pos)
  have split: "pow2 ?e = pow2 52 * ?ulp"
    using pow2_add [of 52 "?e - 52"] by simp
  have "of_int (2 ^ 52) = pow2 52" using pow2_nat [of 52] by simp
  also have "\<dots> \<le> x / ?ulp"
    using b ulp by (simp add: split pos_le_divide_eq)
  finally have "2 ^ 52 \<le> ?m" by (rule round_half_even_ge)
  moreover have "(0::int) < 2 ^ 52" by simp
  ultimately have pos: "0 < ?m" by linarith
  from round_double_pos [OF x e range refl pos]
  have rd: "round_double x = Fin (of_int ?m * ?ulp)" .
  have "\<bar>of_int ?m * ?ulp - x\<bar> = \<bar>of_int ?m - x / ?ulp\<bar> * ?ulp"
  proof -
    have "of_int ?m * ?ulp - x = (of_int ?m - x / ?ulp) * ?ulp"
      using ulp by (simp add: field_simps)
    then show ?thesis using ulp by (simp add: abs_mult)
  qed
  also have "\<dots> \<le> 1 / 2 * ?ulp"
    using round_half_even_error [of "x / ?ulp"] ulp by (intro mult_right_mono) simp_all
  also have "1 / 2 * ?ulp = pow2 ?e / 2 ^ 53"
    using pow2_nat [of 52] by (simp add: split)
  also have "\<dots> \<le> x / 2 ^ 53"
    using b by (simp add: divide_right_mono)
  finally have "\<bar>of_int ?m * ?ulp - x\<bar> \<le> x / 2 ^ 53" .
  moreover have "0 < of_int ?m * ?ulp" using pos ulp by simp
  ultimately show ?thesis using rd by blast
qed

lemma rel_error_compose:
  fixes e v w a u :: rat
  assumes ve: "\<bar>v - e\<bar> \<le> e * a" and e: "0 \<le> e" and a: "0 \<le> a" "a \<le> 1"
    and wv: "\<bar>w - v\<bar> \<le> v * u" and u: "0 \<le> u"
  shows "\<bar>w - e\<bar> \<le> e * (a + 2 * u)"
proof -
  from ve have v: "v \<le> e + e * a" by (simp add: abs_le_iff)
  have "e * a \<le> e" using e a(2) by (simp add: mult_left_le)
  with v have "v \<le> 2 * e" by simp
  then have "v * u \<le> 2 * e * u" using u by (rule mult_right_mono)
  with wv have "\<bar>w - v\<bar> \<le> 2 * e * u" by simp
  moreover have "\<bar>w - e\<bar> \<le> \<bar>w - v\<bar> + \<bar>v - e\<bar>" by simp
  ultimately have "\<bar>w - e\<bar> \<le> 2 * e * u + e * a" using ve by linarith
  then show ?thesis by (simp add: algebra_simps)
qed

lemma round_double_rel_error:
  fixes e v a :: rat
  assumes ve: "\<bar>v - e\<bar> \<le> e * a" and a: "0 \<le> a" "a \<le> 1 / 2"
    and e: "1 / 100 \<le> e" "e \<le> 2 ^ 40"
  shows "\<exists>w. round_double v = Fin w \<and> 0 < w \<and> \<bar>w - e\<bar> \<le> e * (a + 2 / 2 ^ 53)"
proof -
  have e0: "0 \<le> e" using e(1) by simp
  have "e * a \<le> e * (1 / 2)" using a(2) e0 by (rule mult_left_mono)
  with ve have lo: "e / 2 \<le> v" and hi: "v \<le> 2 * e" by (simp_all add: abs_le_iff)
  have "pow2 (- 1022) \<le> pow2 (- 8)" by (rule pow2_mono) simp
  also have "pow2 (- 8) \<le> 1 / 200" by (simp add: pow2_def)
  also have "\<dots> \<le> v" using lo e(1) by simp
  finally have r1: "pow2 (- 1022) \<le> v" .
  have "v \<le> 2 * 2 ^ 40" using hi e(2) by simp
  also have "2 * 2 ^ 40 < pow2 42" by (simp add: pow2_def)
  also have "pow2 42 \<le> pow2 1023" by (rule pow2_mono) simp
  finally have r2: "v < pow2 1023" .
  from round_double_error [OF r1 r2] obtain w
    where w: "round_double v = Fin w" "0 < w" "\<bar>w - v\<bar> \<le> v / 2 ^ 53"
    by blast
  from w(3) have "\<bar>w - v\<bar> \<le> v * (1 / 2 ^ 53)" by simp
  from rel_error_compose [OF ve e0 a(1) _ this] a(2)
  have "\<bar>w - e\<bar> \<le> e * (a + 2 * (1 / 2 ^ 53))" by simp
  with w show ?thesis by auto
qed

text \<open>
  The rounding at three well-known places: \<open>0.1 + 0.2\<close> is not \<open>0.3\<close>, \<open>2 ^ 53 + 1\<close> is
  \<open>2 ^ 53\<close>, and \<open>1.005 * 100\<close> is below \<open>100.5\<close>.
\<close>

lemma round_double_examples:
  "js_add (round_double (1 / 10)) (round_double (2 / 10)) = Fin (1351079888211149 / 4503599627370496)"
  "round_double (3 / 10) = Fin (5404319552844595 / 18014398509481984)"
  "js_add (Fin 9007199254740992) (Fin 1) = Fin 9007199254740992"
  "js_mul (round_double (1005 / 1000)) (Fin 100) = Fin (7072058789855231 / 70368744177664)"
  by code_simp+

subsection \<open>Totals without rounding\<close>

lemma positive_finite_iff: "positive_finite x \<longleftrightarrow> (\<exists>q. x = Fin q \<and> 0 < q)"
  by (cases x) auto

lemma round_double_zero: "round_double 0 = Fin 0"
  by (simp add: round_double_def)

lemma js_mul_exact:
  assumes "0 < p" and "0 < q" and "representable (p * q)"
  shows "js_mul (Fin p) (Fin q) = Fin (p * q)"
  using assms by (simp add: js_mul_def representable_def)

lemma js_add_exact:
  assumes "representable (a + b)"
  shows "js_add (Fin a) (Fin b) = Fin (a + b)"
  using assms by (simp add: representable_def)

lemma total_fold_exact:
  assumes "no_rounding_in_total acc its" and "0 \<le> acc"
  shows "foldl (\<lambda>sum item. js_add sum (js_mul (CartItem.price item) (CartItem.quantity item)))
           (Fin acc) its = Fin (acc + spec_subtotal its)
         \<and> representable ((acc + spec_subtotal its) * 100)
         \<and> 0 \<le> acc + spec_subtotal its"
  using assms
proof (induction its arbitrary: acc)
  case Nil
  then show ?case by (simp add: spec_subtotal_def)
next
  case (Cons item rest)
  from Cons.prems(1) obtain p q where p: "CartItem.price item = Fin p" "0 < p"
    and q: "CartItem.quantity item = Fin q" "0 < q"
    by (auto simp: positive_finite_iff)
  from Cons.prems(1) p q have prod: "representable (p * q)"
    and sum: "representable (acc + p * q)"
    and rest: "no_rounding_in_total (acc + p * q) rest"
    by simp_all
  have step: "js_add (Fin acc) (js_mul (Fin p) (Fin q)) = Fin (acc + p * q)"
    using p q prod sum by (simp add: js_mul_exact js_add_exact del: js_add.simps)
  have nonneg: "0 \<le> acc + p * q"
    using Cons.prems(2) p(2) q(2) by simp
  from Cons.IH [OF rest nonneg] show ?case
    using p q by (simp add: step spec_subtotal_def add.assoc del: js_add.simps)
qed

lemma round_to_cents_exact:
  assumes "0 \<le> s" and "representable (s * 100)"
  shows "js_div (Math_round (js_mul (Fin s) (Fin 100))) (Fin 100)
         = round_double (round_half_up_cents s)"
proof -
  have mul: "js_mul (Fin s) (Fin 100) = Fin (s * 100)"
    using assms(2) by (simp add: js_mul_def representable_def signed_zero_def)
  let ?k = "\<lfloor>s * 100 + 1 / 2\<rfloor>"
  have round: "Math_round (Fin (s * 100)) = Fin (of_int ?k)"
    using assms(1) by (simp add: Let_def)
  have "js_div (Fin (of_int ?k)) (Fin 100) = round_double (of_int ?k / 100)"
    by (simp add: js_div_def signed_zero_def round_double_zero)
  then show ?thesis
    by (simp only: mul round round_half_up_cents_def)
qed

subsection \<open>Totals of prices in whole cents\<close>

lemma whole_quantity_iff:
  "whole_quantity x \<longleftrightarrow> (\<exists>k. x = Fin (of_int k) \<and> 1 \<le> k)"
proof (cases x)
  case (Fin q)
  show ?thesis
  proof
    assume "whole_quantity x"
    with Fin have q: "1 \<le> q" "of_int \<lfloor>q\<rfloor> = q" by simp_all
    then have "1 \<le> \<lfloor>q\<rfloor>" by simp
    with q Fin show "\<exists>k. x = Fin (of_int k) \<and> 1 \<le> k" by metis
  next
    assume "\<exists>k. x = Fin (of_int k) \<and> 1 \<le> k"
    then show "whole_quantity x" by auto
  qed
qed auto

lemma accepted_quantity_whole: "accepted_quantity (JNum q) \<Longrightarrow> whole_quantity q"
  by (cases q) auto

lemma js_add_whole:
  assumes "whole_quantity x" and "whole_quantity y" and "val x + val y \<le> 2 ^ 53"
  shows "js_add x y = Fin (val x + val y)"
proof -
  from assms(1) obtain a where x: "x = Fin (of_int a)" and a: "1 \<le> a"
    by (auto simp: whole_quantity_iff)
  from assms(2) obtain b where y: "y = Fin (of_int b)" and b: "1 \<le> b"
    by (auto simp: whole_quantity_iff)
  from assms(3) have "(of_int (a + b) :: rat) \<le> of_int (2 ^ 53)"
    by (simp add: x y)
  then have "a + b \<le> 2 ^ 53" by (simp only: of_int_le_iff)
  moreover have "1 \<le> a + b" using a b by simp
  ultimately have "representable (of_int (a + b))" by (intro representable_of_int)
  then have "js_add (Fin (of_int a)) (Fin (of_int b)) = Fin (of_int (a + b))"
    by (simp add: representable_def)
  then show ?thesis by (simp add: x y)
qed

lemma cent_price_error:
  assumes price: "cent_price x" and bound: "cents x \<le> 2 ^ 40"
  shows "\<exists>p. x = Fin p \<and> 0 < p \<and> 1 \<le> cents x
           \<and> \<bar>p - of_int (cents x) / 100\<bar> \<le> of_int (cents x) / 100 * (2 / 2 ^ 53)"
proof -
  from price obtain p where x: "x = Fin p" and p: "0 < p"
    and rd: "round_double (of_int (cents x) / 100) = Fin p"
    by (cases x) auto
  let ?c = "cents x"
  have "0 \<le> ?c" using p by (simp add: cents_def x)
  moreover have "?c \<noteq> 0"
  proof
    assume "?c = 0"
    with rd p show False by (simp add: round_double_def)
  qed
  ultimately have c: "1 \<le> ?c" by simp
  let ?e = "of_int ?c / 100 :: rat"
  have e1: "1 / 100 \<le> ?e" using c by simp
  have "of_int ?c \<le> (of_int (2 ^ 40) :: rat)" using bound by (simp only: of_int_le_iff)
  then have e2: "?e \<le> 2 ^ 40" by simp
  have "\<bar>?e - ?e\<bar> \<le> ?e * 0" by simp
  from round_double_rel_error [OF this _ _ e1 e2] obtain w
    where "round_double ?e = Fin w" and "\<bar>w - ?e\<bar> \<le> ?e * (0 + 2 / 2 ^ 53)"
    by auto
  with rd have "\<bar>p - ?e\<bar> \<le> ?e * (2 / 2 ^ 53)" by simp
  with x p c show ?thesis by simp
qed

lemma product_error:
  assumes price: "cent_price x" and k: "1 \<le> k" and bound: "cents x * k \<le> 2 ^ 40"
  shows "\<exists>y. js_mul x (Fin (of_int k)) = Fin y \<and> 0 < y \<and> 1 \<le> cents x
           \<and> \<bar>y - of_int (cents x * k) / 100\<bar> \<le> of_int (cents x * k) / 100 * (4 / 2 ^ 53)"
proof -
  let ?c = "cents x"
  have c0: "0 \<le> ?c"
    using price by (cases x) (auto simp: cents_def)
  have "?c * 1 \<le> ?c * k" using k c0 by (intro mult_left_mono) simp_all
  with bound have "?c \<le> 2 ^ 40" by simp
  from cent_price_error [OF price this] obtain p where x: "x = Fin p" and p: "0 < p"
    and c: "1 \<le> ?c" and err: "\<bar>p - of_int ?c / 100\<bar> \<le> of_int ?c / 100 * (2 / 2 ^ 53)"
    by blast
  let ?e = "of_int (?c * k) / 100 :: rat"
  have kpos: "0 < (of_int k :: rat)" using k by simp
  have "\<bar>p * of_int k - ?e\<bar> = \<bar>p - of_int ?c / 100\<bar> * of_int k"
  proof -
    have "p * of_int k - ?e = (p - of_int ?c / 100) * of_int k" by (simp add: algebra_simps)
    then show ?thesis using kpos by (simp add: abs_mult)
  qed
  also have "\<dots> \<le> of_int ?c / 100 * (2 / 2 ^ 53) * of_int k"
    using err kpos by (intro mult_right_mono) simp_all
  also have "\<dots> = ?e * (2 / 2 ^ 53)" by simp
  finally have ve: "\<bar>p * of_int k - ?e\<bar> \<le> ?e * (2 / 2 ^ 53)" .
  have "1 * 1 \<le> ?c * k" using c k by (intro mult_mono) simp_all
  then have "1 \<le> ?c * k" by simp
  then have "(1::rat) \<le> of_int (?c * k)" by (simp only: of_int_1_le_iff)
  then have e1: "1 / 100 \<le> ?e" by simp
  have "of_int (?c * k) \<le> (of_int (2 ^ 40) :: rat)" using bound by (simp only: of_int_le_iff)
  then have e2: "?e \<le> 2 ^ 40" by simp
  from round_double_rel_error [OF ve _ _ e1 e2] obtain y
    where y: "round_double (p * of_int k) = Fin y" "0 < y"
      "\<bar>y - ?e\<bar> \<le> ?e * (2 / 2 ^ 53 + 2 / 2 ^ 53)"
    by auto
  have "js_mul x (Fin (of_int k)) = Fin y"
    using p k y(1) by (simp add: js_mul_def x)
  with y c show ?thesis by auto
qed

lemma cents_nonneg: "cent_price x \<Longrightarrow> 0 \<le> cents x"
  by (cases x) (auto simp: cents_def)

lemma exact_cents_Cons:
  "exact_cents (item # rest) =
     cents (CartItem.price item) * \<lfloor>val (CartItem.quantity item)\<rfloor> + exact_cents rest"
  by (simp add: exact_cents_def)

lemma exact_cents_nonneg:
  assumes "\<forall>item \<in> set its. cent_item item"
  shows "0 \<le> exact_cents its"
  using assms
proof (induction its)
  case Nil
  then show ?case by (simp add: exact_cents_def)
next
  case (Cons item rest)
  then have "cent_price (CartItem.price item)" and "whole_quantity (CartItem.quantity item)"
    by (simp_all add: cent_item_def)
  then have "0 \<le> cents (CartItem.price item)" and "0 \<le> \<lfloor>val (CartItem.quantity item)\<rfloor>"
    by (auto simp: cents_nonneg whole_quantity_iff)
  then have "0 \<le> cents (CartItem.price item) * \<lfloor>val (CartItem.quantity item)\<rfloor>"
    by simp
  with Cons show ?case by (simp add: exact_cents_Cons)
qed

lemma error_coefficient_small:
  assumes "j \<le> 1000"
  shows "(2 * of_nat j + 4) / 2 ^ 53 \<le> (1 / 2 :: rat)"
proof -
  have "(of_nat j :: rat) \<le> of_nat 1000" using assms by (simp only: of_nat_le_iff)
  then have "2 * of_nat j + 4 \<le> (2004 :: rat)" by simp
  also have "\<dots> \<le> 2 ^ 53 / 2" by simp
  finally show ?thesis by (simp add: field_simps)
qed

lemma total_fold_cents:
  assumes items: "\<forall>item \<in> set its. cent_item item"
    and E: "0 \<le> E"
    and acc: "\<bar>acc - E\<bar> \<le> E * ((2 * of_nat j + 4) / 2 ^ 53)"
    and len: "j + length its \<le> 1000"
    and bound: "E * 100 + of_int (exact_cents its) \<le> 2 ^ 40"
  shows "\<exists>S. foldl (\<lambda>sum item. js_add sum (js_mul (CartItem.price item) (CartItem.quantity item)))
               (Fin acc) its = Fin S
             \<and> \<bar>S - (E + of_int (exact_cents its) / 100)\<bar>
                 \<le> (E + of_int (exact_cents its) / 100)
                    * ((2 * of_nat (j + length its) + 4) / 2 ^ 53)"
  using assms
proof (induction its arbitrary: acc E j)
  case Nil
  then show ?case by (simp add: exact_cents_def)
next
  case (Cons item rest)
  define a :: rat where "a = (2 * of_nat j + 4) / 2 ^ 53"
  from Cons.prems(1) have price: "cent_price (CartItem.price item)"
    and "whole_quantity (CartItem.quantity item)" and rest: "\<forall>item \<in> set rest. cent_item item"
    by (simp_all add: cent_item_def)
  then obtain k where q: "CartItem.quantity item = Fin (of_int k)" and k: "1 \<le> k"
    by (auto simp: whole_quantity_iff)
  let ?c = "cents (CartItem.price item)"
  define e :: rat where "e = of_int (?c * k) / 100"
  define E' where "E' = E + e"
  have ex: "exact_cents (item # rest) = ?c * k + exact_cents rest"
    by (simp add: exact_cents_Cons q)
  have rest0: "0 \<le> exact_cents rest" using rest by (rule exact_cents_nonneg)
  then have rest0': "(0::rat) \<le> of_int (exact_cents rest)" by simp
  from Cons.prems(5) have total: "E * 100 + of_int (?c * k) + of_int (exact_cents rest) \<le> 2 ^ 40"
    by (simp add: ex)
  with Cons.prems(2) rest0' have "(of_int (?c * k) :: rat) \<le> 2 ^ 40" by linarith
  then have "(of_int (?c * k) :: rat) \<le> of_int (2 ^ 40)" by simp
  then have ck: "?c * k \<le> 2 ^ 40" by (simp only: of_int_le_iff)
  from product_error [OF price k ck] obtain y
    where y: "js_mul (CartItem.price item) (Fin (of_int k)) = Fin y" "0 < y"
      and c: "1 \<le> ?c" and yerr: "\<bar>y - e\<bar> \<le> e * (4 / 2 ^ 53)"
    unfolding e_def by blast
  have "1 * 1 \<le> ?c * k" using c k by (intro mult_mono) simp_all
  then have "(1::rat) \<le> of_int (?c * k)" by (simp only: mult_1 of_int_1_le_iff)
  then have e1: "1 / 100 \<le> e" by (simp add: e_def)
  have e0: "0 \<le> e" using e1 by simp
  have E'1: "1 / 100 \<le> E'" using e1 Cons.prems(2) by (simp add: E'_def)
  have "E' * 100 = E * 100 + of_int (?c * k)" by (simp add: E'_def e_def algebra_simps)
  with total rest0' have E'100: "E' * 100 \<le> 2 ^ 40" by linarith
  with E'1 have E'2: "E' \<le> 2 ^ 40" by simp
  have j: "j \<le> 1000" using Cons.prems(4) by simp
  have a0: "0 \<le> a" by (simp add: a_def)
  have a1: "a \<le> 1 / 2" unfolding a_def using j by (rule error_coefficient_small)
  have "4 / 2 ^ 53 \<le> a" by (simp add: a_def field_simps)
  then have "e * (4 / 2 ^ 53) \<le> e * a" using e0 by (rule mult_left_mono)
  with yerr have yerr': "\<bar>y - e\<bar> \<le> e * a" by (rule order_trans)
  have accerr: "\<bar>acc - E\<bar> \<le> E * a" using Cons.prems(3) by (simp only: a_def)
  have "\<bar>(acc + y) - E'\<bar> \<le> \<bar>acc - E\<bar> + \<bar>y - e\<bar>" by (simp add: E'_def)
  also have "\<dots> \<le> E * a + e * a" using accerr yerr' by (rule add_mono)
  also have "\<dots> = E' * a" by (simp add: E'_def algebra_simps)
  finally have ve: "\<bar>(acc + y) - E'\<bar> \<le> E' * a" .
  from round_double_rel_error [OF ve a0 a1 E'1 E'2] obtain S'
    where S': "round_double (acc + y) = Fin S'"
      and S'err: "\<bar>S' - E'\<bar> \<le> E' * (a + 2 / 2 ^ 53)"
    by blast
  have coeff: "a + 2 / 2 ^ 53 = (2 * of_nat (Suc j) + 4) / 2 ^ 53"
    by (simp add: a_def field_simps)
  have step: "js_add (Fin acc) (js_mul (CartItem.price item) (CartItem.quantity item)) = Fin S'"
    using y(1) S' by (simp add: q)
  have E'0: "0 \<le> E'" using E'1 by simp
  have len': "Suc j + length rest \<le> 1000" using Cons.prems(4) by simp
  have bound': "E' * 100 + of_int (exact_cents rest) \<le> 2 ^ 40"
    using total \<open>E' * 100 = E * 100 + of_int (?c * k)\<close> by linarith
  from Cons.IH [OF rest E'0 S'err [unfolded coeff] len' bound'] obtain S
    where S: "foldl (\<lambda>sum item. js_add sum (js_mul (CartItem.price item) (CartItem.quantity item)))
               (Fin S') rest = Fin S"
      and Serr: "\<bar>S - (E' + of_int (exact_cents rest) / 100)\<bar>
                 \<le> (E' + of_int (exact_cents rest) / 100)
                    * ((2 * of_nat (Suc j + length rest) + 4) / 2 ^ 53)"
    by blast
  have sum: "E' + of_int (exact_cents rest) / 100 = E + of_int (exact_cents (item # rest)) / 100"
    by (simp add: ex E'_def e_def)
  have n: "Suc j + length rest = j + length (item # rest)" by simp
  have "foldl (\<lambda>sum item. js_add sum (js_mul (CartItem.price item) (CartItem.quantity item)))
               (Fin acc) (item # rest) = Fin S"
    using S by (simp only: foldl_Cons step)
  moreover note Serr [unfolded sum n]
  ultimately show ?case by blast
qed

lemma calculateTotal_cents:
  assumes items: "\<forall>item \<in> set (Cart.items c). cent_item item"
    and len: "length (Cart.items c) \<le> 1000"
    and bound: "exact_cents (Cart.items c) \<le> 2 ^ 40"
  shows "calculateTotal c = round_double (of_int (exact_cents (Cart.items c)) / 100)"
proof (cases "Cart.items c")
  case Nil
  then show ?thesis
    by (simp add: calculateTotal_empty exact_cents_def round_double_zero)
next
  case (Cons item rest)
  define T where "T = exact_cents (Cart.items c)"
  define n where "n = length (Cart.items c)"
  define a :: rat where "a = (2 * of_nat n + 4) / 2 ^ 53"
  have T1: "1 \<le> T"
  proof -
    from items Cons have "cent_price (CartItem.price item)"
      and "whole_quantity (CartItem.quantity item)" and "\<forall>item \<in> set rest. cent_item item"
      by (simp_all add: cent_item_def)
    then obtain k where q: "CartItem.quantity item = Fin (of_int k)" and k: "1 \<le> k"
      by (auto simp: whole_quantity_iff)
    have rest0: "0 \<le> exact_cents rest"
      using \<open>\<forall>item \<in> set rest. cent_item item\<close> by (rule exact_cents_nonneg)
    have c0: "0 \<le> cents (CartItem.price item)"
      using \<open>cent_price (CartItem.price item)\<close> by (rule cents_nonneg)
    have Teq: "T = cents (CartItem.price item) * k + exact_cents rest"
      by (simp add: T_def Cons exact_cents_Cons q)
    have "cents (CartItem.price item) * 1 \<le> cents (CartItem.price item) * k"
      using k c0 by (intro mult_left_mono) simp_all
    with Teq rest0 bound have "cents (CartItem.price item) \<le> 2 ^ 40" by (simp add: T_def)
    from cent_price_error [OF \<open>cent_price (CartItem.price item)\<close> this]
    have "1 \<le> cents (CartItem.price item)" by blast
    then have "1 * 1 \<le> cents (CartItem.price item) * k" using k by (intro mult_mono) simp_all
    with Teq rest0 show ?thesis by simp
  qed
  have TB: "(of_int T :: rat) \<le> 2 ^ 40"
  proof -
    have "(of_int T :: rat) \<le> of_int (2 ^ 40)" using bound unfolding T_def by (simp only: of_int_le_iff)
    then show ?thesis by simp
  qed
  have T1': "(1::rat) \<le> of_int T" using T1 by (simp only: of_int_1_le_iff)
  have a0: "0 \<le> a" by (simp add: a_def)
  have a1: "a \<le> 1 / 2" unfolding a_def using len unfolding n_def by (rule error_coefficient_small)
  have "\<bar>(0::rat) - 0\<bar> \<le> 0 * ((2 * of_nat 0 + 4) / 2 ^ 53)" by simp
  from total_fold_cents [OF items order_refl this] len bound obtain S
    where fold: "foldl (\<lambda>sum item. js_add sum (js_mul (CartItem.price item) (CartItem.quantity item)))
               (Fin 0) (Cart.items c) = Fin S"
      and Serr: "\<bar>S - of_int T / 100\<bar> \<le> of_int T / 100 * a"
    by (auto simp: T_def a_def n_def)
  define e :: rat where "e = of_int T / 100"
  have e0: "0 < e" using T1' by (simp add: e_def)
  have "e * a \<le> e * (1 / 2)"
    using a1 e0 by (intro mult_left_mono) simp_all
  moreover have "\<bar>S - e\<bar> \<le> e * a" using Serr by (simp only: e_def)
  ultimately have S0: "0 < S" using e0 by linarith
  have "\<bar>S * 100 - of_int T\<bar> = \<bar>S - of_int T / 100\<bar> * 100"
  proof -
    have "S * 100 - of_int T = (S - of_int T / 100) * 100" by simp
    moreover have "\<bar>(S - of_int T / 100) * 100\<bar> = \<bar>S - of_int T / 100\<bar> * 100"
      by (simp only: abs_mult abs_numeral)
    ultimately show ?thesis by (simp only:)
  qed
  also have "\<dots> \<le> of_int T / 100 * a * 100"
    using Serr by (intro mult_right_mono) simp_all
  also have "\<dots> = of_int T * a" by simp
  finally have ve: "\<bar>S * 100 - of_int T\<bar> \<le> of_int T * a" .
  have "1 / 100 \<le> (of_int T :: rat)" using T1' by simp
  from round_double_rel_error [OF ve a0 a1 this TB] obtain x
    where x: "round_double (S * 100) = Fin x" "0 < x"
      and xerr: "\<bar>x - of_int T\<bar> \<le> of_int T * (a + 2 / 2 ^ 53)"
    by blast
  have "a + 2 / 2 ^ 53 \<le> 2006 / 2 ^ 53"
  proof -
    have "(of_nat n :: rat) \<le> of_nat 1000" using len unfolding n_def by (simp only: of_nat_le_iff)
    then have "2 * of_nat n + 6 \<le> (2006 :: rat)" by simp
    then have "(2 * of_nat n + 6) / 2 ^ 53 \<le> (2006 / 2 ^ 53 :: rat)"
      by (rule divide_right_mono) simp
    moreover have "a + 2 / 2 ^ 53 = (2 * of_nat n + 6) / 2 ^ 53"
      by (simp add: a_def field_simps)
    ultimately show ?thesis by simp
  qed
  then have "of_int T * (a + 2 / 2 ^ 53) \<le> of_int T * (2006 / 2 ^ 53)"
    using T1' by (intro mult_left_mono) simp_all
  also have "\<dots> \<le> 2 ^ 40 * (2006 / 2 ^ 53)"
    using TB by (intro mult_right_mono) simp_all
  also have "\<dots> < (1 / 2 :: rat)" by simp
  finally have "of_int T * (a + 2 / 2 ^ 53) < 1 / 2" .
  with xerr have near: "\<bar>x - of_int T\<bar> < 1 / 2" by simp
  have floor: "\<lfloor>x + 1 / 2\<rfloor> = T"
  proof (rule floor_unique)
    show "of_int T \<le> x + 1 / 2" using near by linarith
    show "x + 1 / 2 < of_int T + 1" using near by linarith
  qed
  have mul: "js_mul (Fin S) (Fin 100) = Fin x"
    using S0 x(1) by (simp add: js_mul_def)
  have round: "Math_round (Fin x) = Fin (of_int T)"
    using x(2) floor by (simp add: Let_def)
  have div: "js_div (Fin (of_int T)) (Fin 100) = round_double (of_int T / 100)"
    using T1 by (simp add: js_div_def)
  have "calculateTotal c = round_double (of_int T / 100)"
    by (simp only: calculateTotal_def Let_def fold mul round div)
  then show ?thesis by (simp only: T_def)
qed

lemma spec_subtotal_cents:
  assumes items: "\<forall>item \<in> set its. cent_item item"
    and bound: "exact_cents its \<le> 2 ^ 40"
  shows "\<bar>spec_subtotal its * 100 - of_int (exact_cents its)\<bar>
           \<le> of_int (exact_cents its) * (2 / 2 ^ 53)"
  using assms
proof (induction its)
  case Nil
  then show ?case by (simp add: spec_subtotal_def exact_cents_def)
next
  case (Cons item rest)
  from Cons.prems(1) have price: "cent_price (CartItem.price item)"
    and "whole_quantity (CartItem.quantity item)" and rest: "\<forall>item \<in> set rest. cent_item item"
    by (simp_all add: cent_item_def)
  then obtain k where q: "CartItem.quantity item = Fin (of_int k)" and k: "1 \<le> k"
    by (auto simp: whole_quantity_iff)
  let ?c = "cents (CartItem.price item)"
  have ex: "exact_cents (item # rest) = ?c * k + exact_cents rest"
    by (simp add: exact_cents_Cons q)
  have rest0: "0 \<le> exact_cents rest" using rest by (rule exact_cents_nonneg)
  have c0: "0 \<le> ?c" using price by (rule cents_nonneg)
  have "?c * 1 \<le> ?c * k" using k c0 by (intro mult_left_mono) simp_all
  with ex rest0 Cons.prems(2) have cb: "?c \<le> 2 ^ 40" by simp
  from c0 k have "0 \<le> ?c * k" by simp
  with ex Cons.prems(2) have rb: "exact_cents rest \<le> 2 ^ 40" by simp
  from cent_price_error [OF price cb] obtain p where p: "CartItem.price item = Fin p"
    and err: "\<bar>p - of_int ?c / 100\<bar> \<le> of_int ?c / 100 * (2 / 2 ^ 53)"
    by blast
  define d :: rat where "d = p * of_int k * 100 - of_int (?c * k)"
  define r :: rat where "r = spec_subtotal rest * 100 - of_int (exact_cents rest)"
  have kpos: "0 < (of_int k :: rat)" using k by simp
  have "d = (p - of_int ?c / 100) * (of_int k * 100)"
    by (simp add: d_def algebra_simps)
  then have "\<bar>d\<bar> = \<bar>p - of_int ?c / 100\<bar> * (of_int k * 100)"
    using kpos by (simp add: abs_mult)
  also have "\<dots> \<le> of_int ?c / 100 * (2 / 2 ^ 53) * (of_int k * 100)"
    using err kpos by (intro mult_right_mono) simp_all
  also have "\<dots> = of_int (?c * k) * (2 / 2 ^ 53)" by simp
  finally have derr: "\<bar>d\<bar> \<le> of_int (?c * k) * (2 / 2 ^ 53)" .
  have rerr: "\<bar>r\<bar> \<le> of_int (exact_cents rest) * (2 / 2 ^ 53)"
    unfolding r_def using rest rb by (rule Cons.IH)
  have "spec_subtotal (item # rest) * 100 - of_int (exact_cents (item # rest)) = d + r"
    by (simp add: spec_subtotal_def ex p q d_def r_def algebra_simps)
  moreover have "\<bar>d + r\<bar> \<le> \<bar>d\<bar> + \<bar>r\<bar>" by simp
  moreover have "of_int (exact_cents (item # rest)) * (2 / 2 ^ 53)
      = of_int (?c * k) * (2 / 2 ^ 53) + of_int (exact_cents rest) * (2 / 2 ^ 53 :: rat)"
    by (simp add: ex algebra_simps)
  ultimately show ?case using derr rerr by linarith
qed

lemma spec_total_cents:
  assumes items: "\<forall>item \<in> set its. cent_item item"
    and bound: "exact_cents its \<le> 2 ^ 40"
  shows "spec_total its = of_int (exact_cents its) / 100"
proof -
  define T where "T = exact_cents its"
  define s where "s = spec_subtotal its * 100"
  have T0: "(0::rat) \<le> of_int T"
    using exact_cents_nonneg [OF items] by (simp add: T_def)
  have "(of_int T :: rat) \<le> of_int (2 ^ 40)" using bound unfolding T_def by (simp only: of_int_le_iff)
  then have TB: "(of_int T :: rat) \<le> 2 ^ 40" by simp
  have err: "\<bar>s - of_int T\<bar> \<le> of_int T * (2 / 2 ^ 53)"
    unfolding s_def T_def using items bound by (rule spec_subtotal_cents)
  have "of_int T * (2 / 2 ^ 53) \<le> 2 ^ 40 * (2 / 2 ^ 53 :: rat)"
    using TB by (intro mult_right_mono) simp_all
  also have "\<dots> < (1 / 2 :: rat)" by simp
  finally have "of_int T * (2 / 2 ^ 53) < (1 / 2 :: rat)" .
  with err have near: "\<bar>s - of_int T\<bar> < 1 / 2" by simp
  have "\<lfloor>s + 1 / 2\<rfloor> = T"
  proof (rule floor_unique)
    show "of_int T \<le> s + 1 / 2" using near by linarith
    show "s + 1 / 2 < of_int T + 1" using near by linarith
  qed
  then show ?thesis
    by (simp add: spec_total_def round_half_up_cents_def s_def T_def)
qed

lemma spec_itemCount_nonneg:
  assumes "\<forall>item \<in> set its. whole_quantity (CartItem.quantity item)"
  shows "0 \<le> spec_itemCount its"
  using assms
proof (induction its)
  case Nil
  then show ?case by (simp add: spec_itemCount_def)
next
  case (Cons item rest)
  then obtain k where "CartItem.quantity item = Fin (of_int k)" and "1 \<le> k"
    by (auto simp: whole_quantity_iff)
  with Cons show ?case by (simp add: spec_itemCount_def)
qed

lemma count_fold_whole:
  assumes items: "\<forall>item \<in> set its. whole_quantity (CartItem.quantity item)"
    and acc: "0 \<le> a"
    and bound: "of_int a + spec_itemCount its \<le> 2 ^ 53"
  shows "foldl (\<lambda>count item. js_add count (CartItem.quantity item)) (Fin (of_int a)) its
         = Fin (of_int a + spec_itemCount its)"
  using assms
proof (induction its arbitrary: a)
  case Nil
  then show ?case by (simp add: spec_itemCount_def)
next
  case (Cons item rest)
  from Cons.prems(1) have rest: "\<forall>item \<in> set rest. whole_quantity (CartItem.quantity item)"
    by simp
  from Cons.prems(1) obtain k where q: "CartItem.quantity item = Fin (of_int k)" and k: "1 \<le> k"
    by (auto simp: whole_quantity_iff)
  have count: "spec_itemCount (item # rest) = of_int k + spec_itemCount rest"
    by (simp add: spec_itemCount_def q)
  have rest0: "0 \<le> spec_itemCount rest" using rest by (rule spec_itemCount_nonneg)
  from Cons.prems(3) have total: "of_int (a + k) + spec_itemCount rest \<le> 2 ^ 53"
    by (simp add: count)
  with rest0 have "(of_int (a + k) :: rat) \<le> 2 ^ 53" by linarith
  then have "(of_int (a + k) :: rat) \<le> of_int (2 ^ 53)" by simp
  then have "a + k \<le> 2 ^ 53" by (simp only: of_int_le_iff)
  moreover have "1 \<le> a + k" using Cons.prems(2) k by simp
  ultimately have "representable (of_int (a + k))" by (intro representable_of_int)
  then have step: "js_add (Fin (of_int a)) (Fin (of_int k)) = Fin (of_int (a + k))"
    by (simp add: representable_def)
  have "0 \<le> a + k" using Cons.prems(2) k by simp
  from Cons.IH [OF rest this total] show ?case
    by (simp only: foldl_Cons q step count) (simp add: algebra_simps)
qed

section \<open>The claims\<close>

subsection \<open>C1: addItem increments an existing item or appends a new one\<close>

text \<open>
  Claim C1, as amended. For every input that passes validation: if the cart holds an
  item with the same productId (the first one, at index \<open>i\<close>), addItem sets the quantity
  of that item to the sum of its quantity and the incoming quantity in double arithmetic
  (the operator \<^verbatim>\<open>+=\<close> of numbers) and changes nothing else, so that the productId, name
  and price of every item are as before; this sum is the exact sum whenever the quantity
  of the item is a whole number and the exact sum is at most \<open>2 ^ 53\<close>. Otherwise addItem
  appends a new item at the end of the list, its name trimmed. Either way it returns the
  snapshot of the cart it leaves.
\<close>

theorem addItem_increments_or_appends:
  assumes input: "input = \<lparr>AddItemInput.productId = JNum pid, name = JStr nm,
                            price = JNum p, quantity = JNum q\<rparr>"
    and valid: "validateAddItemInput input = Inr ()"
  shows "(\<forall>i. i < length (Cart.items c)
              \<and> js_strict_eq (CartItem.productId (Cart.items c ! i)) pid
              \<and> (\<forall>j < i. \<not> js_strict_eq (CartItem.productId (Cart.items c ! j)) pid)
            \<longrightarrow> addItem input c =
                 (let old = Cart.items c ! i;
                      c' = c\<lparr>Cart.items := (Cart.items c)
                             [i := old\<lparr>CartItem.quantity := js_add (CartItem.quantity old) q\<rparr>]\<rparr>
                  in (Inr (getCart c'), c'))
              \<and> map (\<lambda>item. (CartItem.productId item, CartItem.name item, CartItem.price item))
                    (Cart.items (snd (addItem input c)))
                = map (\<lambda>item. (CartItem.productId item, CartItem.name item, CartItem.price item))
                    (Cart.items c)
              \<and> (whole_quantity (CartItem.quantity (Cart.items c ! i))
                    \<and> val (CartItem.quantity (Cart.items c ! i)) + val q \<le> 2 ^ 53
                  \<longrightarrow> CartItem.quantity (Cart.items (snd (addItem input c)) ! i)
                      = Fin (val (CartItem.quantity (Cart.items c ! i)) + val q)))
       \<and> ((\<forall>item \<in> set (Cart.items c). \<not> js_strict_eq (CartItem.productId item) pid)
            \<longrightarrow> addItem input c =
                 (let c' = c\<lparr>Cart.items := Cart.items c
                             @ [\<lparr>CartItem.productId = pid, name = js_trim nm,
                                 price = p, quantity = q\<rparr>]\<rparr>
                  in (Inr (getCart c'), c')))"
proof (intro conjI allI impI)
  fix i
  assume i: "i < length (Cart.items c)
              \<and> js_strict_eq (CartItem.productId (Cart.items c ! i)) pid
              \<and> (\<forall>j < i. \<not> js_strict_eq (CartItem.productId (Cart.items c ! j)) pid)"
  then have idx: "findItemIndex c pid = int i"
    by (intro findItemIndex_first) auto
  show eq: "addItem input c =
         (let old = Cart.items c ! i;
              c' = c\<lparr>Cart.items := (Cart.items c)
                     [i := old\<lparr>CartItem.quantity := js_add (CartItem.quantity old) q\<rparr>]\<rparr>
          in (Inr (getCart c'), c'))"
    using idx unfolding addItem_validated [OF valid] by (simp add: input Let_def)
  show "map (\<lambda>item. (CartItem.productId item, CartItem.name item, CartItem.price item))
          (Cart.items (snd (addItem input c)))
      = map (\<lambda>item. (CartItem.productId item, CartItem.name item, CartItem.price item))
          (Cart.items c)"
    using i by (simp add: eq Let_def map_update list_update_same_conv)
  assume whole: "whole_quantity (CartItem.quantity (Cart.items c ! i))
      \<and> val (CartItem.quantity (Cart.items c ! i)) + val q \<le> 2 ^ 53"
  from valid have "accepted_quantity (JNum q)"
    by (simp add: validateAddItemInput_chain input split: if_splits)
  then have "whole_quantity q" by (rule accepted_quantity_whole)
  with whole have "js_add (CartItem.quantity (Cart.items c ! i)) q
      = Fin (val (CartItem.quantity (Cart.items c ! i)) + val q)"
    by (intro js_add_whole) simp_all
  then show "CartItem.quantity (Cart.items (snd (addItem input c)) ! i)
      = Fin (val (CartItem.quantity (Cart.items c ! i)) + val q)"
    using i by (simp add: eq Let_def)
next
  assume "\<forall>item \<in> set (Cart.items c). \<not> js_strict_eq (CartItem.productId item) pid"
  then have "findItemIndex c pid = - 1"
    by (rule findItemIndex_absent)
  then show "addItem input c =
         (let c' = c\<lparr>Cart.items := Cart.items c
                     @ [\<lparr>CartItem.productId = pid, name = js_trim nm,
                         price = p, quantity = q\<rparr>]\<rparr>
          in (Inr (getCart c'), c'))"
    unfolding addItem_validated [OF valid] by (simp add: input Let_def)
qed

theorem addItem_increments_or_appends_witness:
  "validateAddItemInput milk_input = Inr ()
   \<and> validateAddItemInput bread_input = Inr ()
   \<and> addItem milk_input \<lparr>Cart.items = [bread]\<rparr> =
       (Inr (getCart \<lparr>Cart.items = [bread, milk\<lparr>CartItem.quantity := Fin 2\<rparr>]\<rparr>),
        \<lparr>Cart.items = [bread, milk\<lparr>CartItem.quantity := Fin 2\<rparr>]\<rparr>)
   \<and> addItem bread_input \<lparr>Cart.items = [milk, bread]\<rparr> =
       (Inr (getCart \<lparr>Cart.items = [milk, bread\<lparr>CartItem.quantity := Fin 4\<rparr>]\<rparr>),
        \<lparr>Cart.items = [milk, bread\<lparr>CartItem.quantity := Fin 4\<rparr>]\<rparr>)
   \<and> whole_quantity (CartItem.quantity bread)
   \<and> CartItem.quantity (Cart.items (snd (addItem bread_input \<lparr>Cart.items = [milk, bread]\<rparr>)) ! 1)
       = Fin 4"
proof -
  let ?c = "\<lparr>Cart.items = [milk, bread]\<rparr>"
  have v1: "validateAddItemInput milk_input = Inr ()" by code_simp
  have v2: "validateAddItemInput bread_input = Inr ()" by code_simp
  have tr: "js_trim (literal ''  Milk  '') = literal ''Milk''" by code_simp
  have q: "round_double 4 = Fin 4" by code_simp
  have w: "whole_quantity (CartItem.quantity bread)" by code_simp
  have a: "addItem milk_input \<lparr>Cart.items = [bread]\<rparr> =
       (Inr (getCart \<lparr>Cart.items = [bread, milk\<lparr>CartItem.quantity := Fin 2\<rparr>]\<rparr>),
        \<lparr>Cart.items = [bread, milk\<lparr>CartItem.quantity := Fin 2\<rparr>]\<rparr>)"
    using addItem_increments_or_appends [OF milk_input_def v1, of "\<lparr>Cart.items = [bread]\<rparr>",
        THEN conjunct2]
    by (simp add: bread_def milk_def js_strict_eq_def tr Let_def)
  have h: "1 < length (Cart.items ?c)
      \<and> js_strict_eq (CartItem.productId (Cart.items ?c ! 1)) (Fin 2)
      \<and> (\<forall>j < 1. \<not> js_strict_eq (CartItem.productId (Cart.items ?c ! j)) (Fin 2))"
    by (simp add: bread_def milk_def js_strict_eq_def)
  note T = addItem_increments_or_appends [OF bread_input_def v2, of ?c, THEN conjunct1,
      THEN spec, THEN mp, OF h]
  have b: "addItem bread_input ?c =
       (Inr (getCart \<lparr>Cart.items = [milk, bread\<lparr>CartItem.quantity := Fin 4\<rparr>]\<rparr>),
        \<lparr>Cart.items = [milk, bread\<lparr>CartItem.quantity := Fin 4\<rparr>]\<rparr>)"
    using T [THEN conjunct1] by (simp add: bread_def q Let_def)
  have hw: "whole_quantity (CartItem.quantity (Cart.items ?c ! 1))
      \<and> val (CartItem.quantity (Cart.items ?c ! 1)) + val (Fin 3) \<le> 2 ^ 53"
    using w by (simp add: bread_def)
  have n: "CartItem.quantity (Cart.items (snd (addItem bread_input ?c)) ! 1) = Fin 4"
    using T [THEN conjunct2, THEN conjunct2, THEN mp, OF hw] by (simp add: bread_def)
  show ?thesis
    by (intro conjI v1 v2 a b w n)
qed

text \<open>
  Claim C1 as it is stated fails where the sum rounds. The cart that a valid call of
  addItem leaves holds one item of quantity \<open>2 ^ 53\<close>; a second valid call with the same
  productId and the quantity \<open>1\<close> finds this item, and leaves its quantity, and the whole
  cart, as they were: the quantity is not increased by the incoming quantity.
\<close>

theorem addItem_increment_counterexample:
  "validateAddItemInput huge_quantity = Inr ()
   \<and> validateAddItemInput more_rice = Inr ()
   \<and> AddItemInput.quantity more_rice = JNum (Fin 1)
   \<and> map CartItem.quantity (Cart.items rice_cart) = [Fin 9007199254740992]
   \<and> findItemIndex rice_cart (num_of (AddItemInput.productId more_rice)) = 0
   \<and> map CartItem.quantity (Cart.items (snd (addItem more_rice rice_cart)))
       = [Fin 9007199254740992]
   \<and> CartItem.quantity (Cart.items (snd (addItem more_rice rice_cart)) ! 0)
       \<noteq> Fin (9007199254740992 + 1)
   \<and> snd (addItem more_rice rice_cart) = rice_cart"
  by code_simp

subsection \<open>C2: the total and the item count of a snapshot\<close>

text \<open>
  Claim C2, as amended. The total and the item count of a snapshot are computed in
  double arithmetic, and they are the values of the claim where this arithmetic is
  exact enough. The total of getCart is the double nearest to the sum of price times
  quantity rounded to two decimals, a half going up, on every cart of at most 1000
  items whose prices are the doubles nearest to whole numbers of cents and whose
  quantities are whole, with a total of at most \<open>2 ^ 40\<close> cents, and on every cart where
  no operation rounds (each price and quantity a positive finite number, each product,
  each partial sum and one hundred times the sum a double). The itemCount is the sum
  of the quantities on every cart whose quantities are whole with a sum of at most
  \<open>2 ^ 53\<close>. The empty cart yields total \<open>0\<close> and itemCount \<open>0\<close>, and the snapshot that
  addItem, updateItem, removeItem and clearCart return is the one getCart gives on the
  cart they leave.
\<close>

theorem snapshot_total_and_itemCount:
  "((\<forall>item \<in> set (Cart.items c). cent_item item)
      \<and> length (Cart.items c) \<le> 1000 \<and> exact_cents (Cart.items c) \<le> 2 ^ 40
      \<longrightarrow> total (getCart c) = round_double (spec_total (Cart.items c)))
   \<and> (no_rounding_in_total 0 (Cart.items c)
      \<longrightarrow> total (getCart c) = round_double (spec_total (Cart.items c)))
   \<and> ((\<forall>item \<in> set (Cart.items c). whole_quantity (CartItem.quantity item))
      \<and> spec_itemCount (Cart.items c) \<le> 2 ^ 53
      \<longrightarrow> itemCount (getCart c) = Fin (spec_itemCount (Cart.items c)))
   \<and> (Cart.items c = []
      \<longrightarrow> getCart c = \<lparr>CartResponse.items = [], total = Fin 0, itemCount = Fin 0\<rparr>)
   \<and> (\<forall>r. fst (addItem input c) = Inr r \<longrightarrow> r = getCart (snd (addItem input c)))
   \<and> (\<forall>r. fst (updateItem pid updates c) = Inr r
          \<longrightarrow> r = getCart (snd (updateItem pid updates c)))
   \<and> (\<forall>r. fst (removeItem pid c) = Inr r \<longrightarrow> r = getCart (snd (removeItem pid c)))
   \<and> fst (clearCart c) = Inr (getCart (snd (clearCart c)))"
proof (intro conjI impI allI)
  assume cents: "(\<forall>item \<in> set (Cart.items c). cent_item item)
      \<and> length (Cart.items c) \<le> 1000 \<and> exact_cents (Cart.items c) \<le> 2 ^ 40"
  then have "calculateTotal c = round_double (of_int (exact_cents (Cart.items c)) / 100)"
    by (intro calculateTotal_cents) simp_all
  moreover from cents have "spec_total (Cart.items c) = of_int (exact_cents (Cart.items c)) / 100"
    by (intro spec_total_cents) simp_all
  ultimately have "calculateTotal c = round_double (spec_total (Cart.items c))"
    by (simp only:)
  then show "total (getCart c) = round_double (spec_total (Cart.items c))"
    by (simp add: getCart_def)
next
  assume exact: "no_rounding_in_total 0 (Cart.items c)"
  from total_fold_exact [OF exact] have
    fold: "foldl (\<lambda>sum item. js_add sum (js_mul (CartItem.price item) (CartItem.quantity item)))
             (Fin 0) (Cart.items c) = Fin (spec_subtotal (Cart.items c))"
    and rep: "representable (spec_subtotal (Cart.items c) * 100)"
    and nonneg: "0 \<le> spec_subtotal (Cart.items c)"
    by simp_all
  show "total (getCart c) = round_double (spec_total (Cart.items c))"
    using round_to_cents_exact [OF nonneg rep]
    by (simp add: getCart_def calculateTotal_def fold spec_total_def)
next
  assume whole: "(\<forall>item \<in> set (Cart.items c). whole_quantity (CartItem.quantity item))
      \<and> spec_itemCount (Cart.items c) \<le> 2 ^ 53"
  then have "foldl (\<lambda>count item. js_add count (CartItem.quantity item)) (Fin (of_int 0))
      (Cart.items c) = Fin (of_int 0 + spec_itemCount (Cart.items c))"
    by (intro count_fold_whole) simp_all
  then show "itemCount (getCart c) = Fin (spec_itemCount (Cart.items c))"
    by (simp add: getCart_def calculateItemCount_def)
next
  assume "Cart.items c = []"
  then show "getCart c = \<lparr>CartResponse.items = [], total = Fin 0, itemCount = Fin 0\<rparr>"
    by (rule getCart_empty)
next
  fix r assume "fst (addItem input c) = Inr r"
  then show "r = getCart (snd (addItem input c))"
    by (auto simp: addItem_def Let_def split: sum.splits)
next
  fix r assume "fst (updateItem pid updates c) = Inr r"
  then show "r = getCart (snd (updateItem pid updates c))"
    by (auto simp: updateItem_def Let_def split: sum.splits if_splits)
next
  fix r assume "fst (removeItem pid c) = Inr r"
  then show "r = getCart (snd (removeItem pid c))"
    by (auto simp: removeItem_def Let_def split: if_splits)
next
  show "fst (clearCart c) = Inr (getCart (snd (clearCart c)))"
    by (simp add: clearCart_def Let_def)
qed

theorem snapshot_total_and_itemCount_witness:
  "cent_item milk_2 \<and> cent_item bread_199
   \<and> exact_cents [milk_2, bread_199] = 699
   \<and> total (getCart \<lparr>Cart.items = [milk_2, bread_199]\<rparr>) = round_double (699 / 100)
   \<and> no_rounding_in_total 0 [milk, bread]
   \<and> spec_total [milk, bread] = 1013 / 100
   \<and> total (getCart \<lparr>Cart.items = [milk, bread]\<rparr>) = round_double (1013 / 100)
   \<and> whole_quantity (CartItem.quantity milk) \<and> whole_quantity (CartItem.quantity bread)
   \<and> itemCount (getCart \<lparr>Cart.items = [milk, bread]\<rparr>) = Fin 5
   \<and> getCart new_CartService = \<lparr>CartResponse.items = [], total = Fin 0, itemCount = Fin 0\<rparr>
   \<and> fst (addItem bread_input \<lparr>Cart.items = [milk, bread]\<rparr>)
       = Inr (getCart (snd (addItem bread_input \<lparr>Cart.items = [milk, bread]\<rparr>)))
   \<and> fst (updateItem (Fin 2) set_quantity_4 \<lparr>Cart.items = [milk, bread]\<rparr>)
       = Inr (getCart (snd (updateItem (Fin 2) set_quantity_4 \<lparr>Cart.items = [milk, bread]\<rparr>)))
   \<and> fst (removeItem (Fin 1) \<lparr>Cart.items = [milk, bread]\<rparr>)
       = Inr (getCart (snd (removeItem (Fin 1) \<lparr>Cart.items = [milk, bread]\<rparr>)))"
proof -
  let ?c = "\<lparr>Cart.items = [milk, bread]\<rparr>"
  let ?d = "\<lparr>Cart.items = [milk_2, bread_199]\<rparr>"
  have m: "cent_item milk_2" by code_simp
  have b: "cent_item bread_199" by code_simp
  have x: "exact_cents [milk_2, bread_199] = 699" by code_simp
  have st: "spec_total [milk_2, bread_199] = 699 / 100" by code_simp
  have h0: "(\<forall>item \<in> set (Cart.items ?d). cent_item item)
      \<and> length (Cart.items ?d) \<le> 1000 \<and> exact_cents (Cart.items ?d) \<le> 2 ^ 40"
    using m b by (simp add: x)
  have h1: "no_rounding_in_total 0 (Cart.items ?c)" by code_simp
  have wm: "whole_quantity (CartItem.quantity milk)" by code_simp
  have wb: "whole_quantity (CartItem.quantity bread)" by code_simp
  have s2: "spec_itemCount [milk, bread] = 5" by code_simp
  have h2: "(\<forall>item \<in> set (Cart.items ?c). whole_quantity (CartItem.quantity item))
      \<and> spec_itemCount (Cart.items ?c) \<le> 2 ^ 53"
    using wm wb by (simp add: s2)
  have h3: "Cart.items new_CartService = []" by (simp add: new_CartService_def)
  have s1: "spec_total [milk, bread] = 1013 / 100" by code_simp
  have v1: "validateAddItemInput bread_input = Inr ()" by code_simp
  have v2: "validateUpdateInput set_quantity_4 = Inr ()" by code_simp
  have i2: "findItemIndex ?c (Fin 2) = 1" by code_simp
  have i1: "findItemIndex ?c (Fin 1) = 0" by code_simp
  obtain r1 where r1: "fst (addItem bread_input ?c) = Inr r1"
    by (simp add: addItem_validated [OF v1] Let_def)
  obtain r2 where r2: "fst (updateItem (Fin 2) set_quantity_4 ?c) = Inr r2"
    by (simp add: updateItem_validated [OF v2] Let_def i2)
  obtain r3 where r3: "fst (removeItem (Fin 1) ?c) = Inr r3"
    by (simp add: removeItem_def Let_def i1)
  note D = snapshot_total_and_itemCount [of ?d]
  note T = snapshot_total_and_itemCount [of ?c bread_input "Fin 2" set_quantity_4]
  note U = snapshot_total_and_itemCount [of ?c bread_input "Fin 1" set_quantity_4]
  note E = snapshot_total_and_itemCount [of new_CartService]
  have t0: "total (getCart ?d) = round_double (699 / 100)"
    using D [THEN conjunct1, THEN mp, OF h0] by (simp add: st)
  have a: "total (getCart ?c) = round_double (1013 / 100)"
    using T [THEN conjunct2, THEN conjunct1, THEN mp, OF h1] by (simp add: s1)
  have n: "itemCount (getCart ?c) = Fin 5"
    using T [THEN conjunct2, THEN conjunct2, THEN conjunct1, THEN mp, OF h2] by (simp add: s2)
  note c = E [THEN conjunct2, THEN conjunct2, THEN conjunct2, THEN conjunct1, THEN mp, OF h3]
  have d: "fst (addItem bread_input ?c) = Inr (getCart (snd (addItem bread_input ?c)))"
    using T [THEN conjunct2, THEN conjunct2, THEN conjunct2, THEN conjunct2, THEN conjunct1,
        THEN spec, THEN mp, OF r1] r1 by simp
  have e: "fst (updateItem (Fin 2) set_quantity_4 ?c)
      = Inr (getCart (snd (updateItem (Fin 2) set_quantity_4 ?c)))"
    using T [THEN conjunct2, THEN conjunct2, THEN conjunct2, THEN conjunct2, THEN conjunct2,
        THEN conjunct1, THEN spec, THEN mp, OF r2] r2 by simp
  have f: "fst (removeItem (Fin 1) ?c) = Inr (getCart (snd (removeItem (Fin 1) ?c)))"
    using U [THEN conjunct2, THEN conjunct2, THEN conjunct2, THEN conjunct2, THEN conjunct2,
        THEN conjunct2, THEN conjunct1, THEN spec, THEN mp, OF r3] r3 by simp
  from h1 have h1': "no_rounding_in_total 0 [milk, bread]" by simp
  show ?thesis
    by (intro conjI m b x t0 h1' s1 a wm wb n c d e f)
qed

text \<open>
  Claim C2 as it is stated fails where the arithmetic rounds. Three valid calls of
  addItem, with the quantities \<open>2 ^ 53\<close>, \<open>1\<close> and \<open>1\<close> and the price \<open>1\<close>, give a
  cart whose snapshot has itemCount and total \<open>2 ^ 53\<close>, while the sum of the
  quantities, and of price times quantity, is \<open>2 ^ 53 + 2\<close>, a double itself.
\<close>

theorem total_itemCount_counterexample:
  "validateAddItemInput huge_quantity = Inr ()
   \<and> validateAddItemInput (one_of 2) = Inr ()
   \<and> validateAddItemInput (one_of 3) = Inr ()
   \<and> itemCount (getCart big_cart) = Fin 9007199254740992
   \<and> spec_itemCount (Cart.items big_cart) = 9007199254740994
   \<and> itemCount (getCart big_cart) \<noteq> round_double (spec_itemCount (Cart.items big_cart))
   \<and> total (getCart big_cart) = Fin 9007199254740992
   \<and> spec_total (Cart.items big_cart) = 9007199254740994
   \<and> total (getCart big_cart) \<noteq> round_double (spec_total (Cart.items big_cart))"
  by code_simp

subsection \<open>C3: checkout of a non-empty cart\<close>

text \<open>
  Claim C3. On a non-empty cart, checkout returns an order summary whose items, total
  and itemCount are those of the cart before the call, with an orderId made of the
  clock value and the first eight characters of the identifier generated for this call
  and with the checkoutTime read from the clock; it leaves the cart empty, and getCart
  on the cart it leaves returns the empty snapshot.
\<close>

theorem checkout_nonempty:
  assumes "Cart.items c \<noteq> []"
  shows "checkout env c =
           (Inr \<lparr>CartResponse.items = Cart.items c,
                 total = calculateTotal c,
                 itemCount = calculateItemCount c,
                 orderId = [Text ''ORD-'', Interp (Date_now env), Text ''-'',
                            Text (take 8 (uuidv4 env))],
                 checkoutTime = toISOString env\<rparr>,
            \<lparr>Cart.items = []\<rparr>)
         \<and> getCart (snd (checkout env c)) =
             \<lparr>CartResponse.items = [], total = Fin 0, itemCount = Fin 0\<rparr>"
  using assms by (simp add: checkout_def Let_def getCart_empty)

theorem checkout_nonempty_witness:
  "Cart.items \<lparr>Cart.items = [milk]\<rparr> \<noteq> []
   \<and> checkout sample_env \<lparr>Cart.items = [milk]\<rparr> =
       (Inr \<lparr>CartResponse.items = [milk], total = Fin 10, itemCount = Fin 4,
             orderId = [Text ''ORD-'', Interp (Fin 1700000000000), Text ''-'', Text ''123e4567''],
             checkoutTime = ''2023-11-14T22:13:20.000Z''\<rparr>,
        \<lparr>Cart.items = []\<rparr>)
   \<and> getCart (snd (checkout sample_env \<lparr>Cart.items = [milk]\<rparr>)) =
       \<lparr>CartResponse.items = [], total = Fin 0, itemCount = Fin 0\<rparr>"
proof -
  have h: "Cart.items \<lparr>Cart.items = [milk]\<rparr> \<noteq> []" by simp
  have t: "calculateTotal \<lparr>Cart.items = [milk]\<rparr> = Fin 10" by code_simp
  have n: "calculateItemCount \<lparr>Cart.items = [milk]\<rparr> = Fin 4" by code_simp
  have e: "Date_now sample_env = Fin 1700000000000 \<and> take 8 (uuidv4 sample_env) = ''123e4567''
           \<and> toISOString sample_env = ''2023-11-14T22:13:20.000Z''"
    by (simp add: sample_env_def)
  note T = checkout_nonempty [OF h, of sample_env]
  from T have c1: "checkout sample_env \<lparr>Cart.items = [milk]\<rparr> =
       (Inr \<lparr>CartResponse.items = [milk], total = Fin 10, itemCount = Fin 4,
             orderId = [Text ''ORD-'', Interp (Fin 1700000000000), Text ''-'', Text ''123e4567''],
             checkoutTime = ''2023-11-14T22:13:20.000Z''\<rparr>,
        \<lparr>Cart.items = []\<rparr>)"
    by (simp add: t n e)
  show ?thesis
    by (intro conjI h c1 T [THEN conjunct2])
qed

subsection \<open>C4: checkout of the empty cart\<close>

text \<open>
  Claim C4, as amended. On the empty cart, checkout throws a BadRequestError whose
  message is ``Cannot checkout with an empty cart'', with a capital C, and leaves the
  cart as it was.
\<close>

theorem checkout_empty:
  assumes "Cart.items c = []"
  shows "checkout env c =
           (Inl (BadRequestError [Text ''Cannot checkout with an empty cart'']), c)"
  using assms by (simp add: checkout_def)

theorem checkout_empty_witness:
  "Cart.items new_CartService = []
   \<and> checkout sample_env new_CartService =
       (Inl (BadRequestError [Text ''Cannot checkout with an empty cart'']), new_CartService)"
proof -
  have h: "Cart.items new_CartService = []" by (simp add: new_CartService_def)
  show ?thesis using h checkout_empty [OF h, of sample_env] by simp
qed

text \<open>
  The message of claim C4 as it is stated, starting with a small letter, is not the one
  thrown.
\<close>

theorem checkout_empty_message_counterexample:
  "checkout sample_env new_CartService \<noteq>
     (Inl (BadRequestError [Text ''cannot checkout with an empty cart'']), new_CartService)"
  by (simp add: checkout_def new_CartService_def)

subsection \<open>C5: at most one item for a productId\<close>



subsection \<open>C6: the validation of addItem\<close>

text \<open>
  Claim C6, as amended. On a productId and a name that the logger serialises, addItem
  checks productId, name, price and quantity in this order and throws a ValidationError
  for the first check that fails: ``productId is required and must be a number'' when
  productId is falsy (absent, \<open>0\<close>, \<open>NaN\<close>) or not a number, ``name is required and must
  be a non-empty string'' when name is not a string or is empty after trimming, ``price
  must be greater than 0'' when price is not a number or is at most \<open>0\<close>, ``quantity
  must be at least 1 and must be an integer'' when quantity is not a whole number from
  \<open>1\<close> on; an input that passes the four checks is valid, and addItem returns a
  snapshot. Whenever addItem throws, it leaves the cart as it was.
\<close>

theorem addItem_validation_order:
  "(\<not> JSON_stringify_throws (AddItemInput.productId input)
        \<and> \<not> JSON_stringify_throws (AddItemInput.name input)
        \<and> \<not> accepted_productId (AddItemInput.productId input)
      \<longrightarrow> addItem input c =
           (Inl (ValidationError [Text ''productId is required and must be a number'']), c))
   \<and> (accepted_productId (AddItemInput.productId input)
        \<and> \<not> JSON_stringify_throws (AddItemInput.name input)
        \<and> \<not> accepted_name (AddItemInput.name input)
      \<longrightarrow> addItem input c =
           (Inl (ValidationError [Text ''name is required and must be a non-empty string'']), c))
   \<and> (accepted_productId (AddItemInput.productId input)
        \<and> accepted_name (AddItemInput.name input)
        \<and> rejected_price (AddItemInput.price input)
      \<longrightarrow> addItem input c =
           (Inl (ValidationError [Text ''price must be greater than 0'']), c))
   \<and> (accepted_productId (AddItemInput.productId input)
        \<and> accepted_name (AddItemInput.name input)
        \<and> accepted_price (AddItemInput.price input)
        \<and> \<not> accepted_quantity (AddItemInput.quantity input)
      \<longrightarrow> addItem input c =
           (Inl (ValidationError [Text ''quantity must be at least 1 and must be an integer'']), c))
   \<and> (accepted_productId (AddItemInput.productId input)
        \<and> accepted_name (AddItemInput.name input)
        \<and> accepted_price (AddItemInput.price input)
        \<and> accepted_quantity (AddItemInput.quantity input)
      \<longrightarrow> validateAddItemInput input = Inr ()
          \<and> fst (addItem input c) = Inr (getCart (snd (addItem input c))))
   \<and> (\<forall>e. fst (addItem input c) = Inl e \<longrightarrow> snd (addItem input c) = c)"
proof (intro conjI impI allI)
  assume "\<not> JSON_stringify_throws (AddItemInput.productId input)
        \<and> \<not> JSON_stringify_throws (AddItemInput.name input)
        \<and> \<not> accepted_productId (AddItemInput.productId input)"
  then show "addItem input c =
      (Inl (ValidationError [Text ''productId is required and must be a number'']), c)"
    by (intro addItem_invalid) (simp_all add: validateAddItemInput_chain)
next
  assume "accepted_productId (AddItemInput.productId input)
        \<and> \<not> JSON_stringify_throws (AddItemInput.name input)
        \<and> \<not> accepted_name (AddItemInput.name input)"
  then show "addItem input c =
      (Inl (ValidationError [Text ''name is required and must be a non-empty string'']), c)"
    by (intro addItem_invalid)
      (simp_all add: validateAddItemInput_chain accepted_productId_serialised)
next
  assume "accepted_productId (AddItemInput.productId input)
        \<and> accepted_name (AddItemInput.name input)
        \<and> rejected_price (AddItemInput.price input)"
  then show "addItem input c =
      (Inl (ValidationError [Text ''price must be greater than 0'']), c)"
    by (intro addItem_invalid)
      (simp_all add: validateAddItemInput_chain accepted_productId_serialised
        accepted_name_serialised)
next
  assume "accepted_productId (AddItemInput.productId input)
        \<and> accepted_name (AddItemInput.name input)
        \<and> accepted_price (AddItemInput.price input)
        \<and> \<not> accepted_quantity (AddItemInput.quantity input)"
  then show "addItem input c =
      (Inl (ValidationError [Text ''quantity must be at least 1 and must be an integer'']), c)"
    by (intro addItem_invalid)
      (simp_all add: validateAddItemInput_chain accepted_productId_serialised
        accepted_name_serialised accepted_price_not_rejected)
next
  assume "accepted_productId (AddItemInput.productId input)
        \<and> accepted_name (AddItemInput.name input)
        \<and> accepted_price (AddItemInput.price input)
        \<and> accepted_quantity (AddItemInput.quantity input)"
  then show valid: "validateAddItemInput input = Inr ()"
    by (simp add: validateAddItemInput_chain accepted_price_not_rejected)
  show "fst (addItem input c) = Inr (getCart (snd (addItem input c)))"
    by (simp add: addItem_validated [OF valid] Let_def)
next
  fix e assume "fst (addItem input c) = Inl e"
  then show "snd (addItem input c) = c"
    by (rule addItem_throws_unchanged)
qed

theorem addItem_validation_order_witness:
  "addItem no_productId \<lparr>Cart.items = [milk]\<rparr> =
     (Inl (ValidationError [Text ''productId is required and must be a number'']),
      \<lparr>Cart.items = [milk]\<rparr>)
   \<and> addItem all_fields_bad \<lparr>Cart.items = [milk]\<rparr> =
     (Inl (ValidationError [Text ''productId is required and must be a number'']),
      \<lparr>Cart.items = [milk]\<rparr>)
   \<and> addItem blank_name \<lparr>Cart.items = [milk]\<rparr> =
     (Inl (ValidationError [Text ''name is required and must be a non-empty string'']),
      \<lparr>Cart.items = [milk]\<rparr>)
   \<and> addItem price_zero \<lparr>Cart.items = [milk]\<rparr> =
     (Inl (ValidationError [Text ''price must be greater than 0'']), \<lparr>Cart.items = [milk]\<rparr>)
   \<and> addItem fractional_quantity \<lparr>Cart.items = [milk]\<rparr> =
     (Inl (ValidationError [Text ''quantity must be at least 1 and must be an integer'']),
      \<lparr>Cart.items = [milk]\<rparr>)
   \<and> validateAddItemInput milk_input = Inr ()
   \<and> fst (addItem milk_input \<lparr>Cart.items = [milk]\<rparr>)
       = Inr (getCart (snd (addItem milk_input \<lparr>Cart.items = [milk]\<rparr>)))
   \<and> snd (addItem price_zero \<lparr>Cart.items = [milk]\<rparr>) = \<lparr>Cart.items = [milk]\<rparr>"
proof -
  let ?c = "\<lparr>Cart.items = [milk]\<rparr>"
  have h1: "\<not> JSON_stringify_throws (AddItemInput.productId no_productId)
            \<and> \<not> JSON_stringify_throws (AddItemInput.name no_productId)
            \<and> \<not> accepted_productId (AddItemInput.productId no_productId)"
    by (simp add: no_productId_def milk_input_def)
  have h1': "\<not> JSON_stringify_throws (AddItemInput.productId all_fields_bad)
            \<and> \<not> JSON_stringify_throws (AddItemInput.name all_fields_bad)
            \<and> \<not> accepted_productId (AddItemInput.productId all_fields_bad)"
    by (simp add: all_fields_bad_def)
  have h2: "accepted_productId (AddItemInput.productId blank_name)
            \<and> \<not> JSON_stringify_throws (AddItemInput.name blank_name)
            \<and> \<not> accepted_name (AddItemInput.name blank_name)"
    by code_simp
  have h3: "accepted_productId (AddItemInput.productId price_zero)
            \<and> accepted_name (AddItemInput.name price_zero)
            \<and> rejected_price (AddItemInput.price price_zero)"
    by code_simp
  have h4: "accepted_productId (AddItemInput.productId fractional_quantity)
            \<and> accepted_name (AddItemInput.name fractional_quantity)
            \<and> accepted_price (AddItemInput.price fractional_quantity)
            \<and> \<not> accepted_quantity (AddItemInput.quantity fractional_quantity)"
    by code_simp
  have h5: "accepted_productId (AddItemInput.productId milk_input)
            \<and> accepted_name (AddItemInput.name milk_input)
            \<and> accepted_price (AddItemInput.price milk_input)
            \<and> accepted_quantity (AddItemInput.quantity milk_input)"
    by code_simp
  note T = addItem_validation_order
  note e1 = T [of no_productId ?c, THEN conjunct1, THEN mp, OF h1]
  note e1' = T [of all_fields_bad ?c, THEN conjunct1, THEN mp, OF h1']
  note e2 = T [of blank_name ?c, THEN conjunct2, THEN conjunct1, THEN mp, OF h2]
  note e3 = T [of price_zero ?c, THEN conjunct2, THEN conjunct2, THEN conjunct1, THEN mp, OF h3]
  note e4 = T [of fractional_quantity ?c, THEN conjunct2, THEN conjunct2, THEN conjunct2,
      THEN conjunct1, THEN mp, OF h4]
  note e5 = T [of milk_input ?c, THEN conjunct2, THEN conjunct2, THEN conjunct2,
      THEN conjunct2, THEN conjunct1, THEN mp, OF h5]
  have f: "fst (addItem price_zero ?c) = Inl (ValidationError [Text ''price must be greater than 0''])"
    by (simp only: e3 fst_conv)
  note e6 = T [of price_zero ?c, THEN conjunct2, THEN conjunct2, THEN conjunct2,
      THEN conjunct2, THEN conjunct2, THEN spec, THEN mp, OF f]
  show ?thesis
    by (intro conjI e1 e1' e2 e3 e4 e5 [THEN conjunct1] e5 [THEN conjunct2] e6)
qed

text \<open>
  The messages of claim C6 as it is stated are not the ones thrown: three of the four
  are longer in the code.
\<close>

theorem addItem_message_counterexample:
  "fst (addItem no_productId new_CartService) \<noteq>
     Inl (ValidationError [Text ''productId is required''])
   \<and> fst (addItem blank_name new_CartService) \<noteq>
     Inl (ValidationError [Text ''name is required''])
   \<and> fst (addItem fractional_quantity new_CartService) \<noteq>
     Inl (ValidationError [Text ''quantity must be at least 1''])"
proof -
  have "fst (addItem no_productId new_CartService) =
     Inl (ValidationError [Text ''productId is required and must be a number''])"
    by code_simp
  moreover have "fst (addItem blank_name new_CartService) =
     Inl (ValidationError [Text ''name is required and must be a non-empty string''])"
    by code_simp
  moreover have "fst (addItem fractional_quantity new_CartService) =
     Inl (ValidationError [Text ''quantity must be at least 1 and must be an integer''])"
    by code_simp
  ultimately show ?thesis by simp
qed

subsection \<open>C7: the validation of updateItem\<close>

text \<open>
  Claim C7, as amended. On a quantity and a price that the logger serialises, updateItem
  throws a ValidationError with the message ``At least one field (quantity or price)
  must be provided'' when neither field is supplied, the ValidationError of the quantity
  when a supplied quantity is not a whole number from \<open>1\<close> on, then the ValidationError
  of the price when a supplied price is not a number or is at most \<open>0\<close>, whatever the
  productId and the cart are; only for fields that pass these checks does it look for
  the item, and throws a NotFoundError with the message ``Item with productId <id> not
  found in cart'' when the cart has none. Whenever updateItem throws, it leaves the cart
  as it was.
\<close>

theorem updateItem_validation_order:
  "(UpdateItemInput.quantity updates = JUndefined \<and> UpdateItemInput.price updates = JUndefined
      \<longrightarrow> updateItem pid updates c =
           (Inl (ValidationError
                  [Text ''At least one field (quantity or price) must be provided'']), c))
   \<and> (UpdateItemInput.quantity updates \<noteq> JUndefined
        \<and> \<not> JSON_stringify_throws (UpdateItemInput.quantity updates)
        \<and> \<not> JSON_stringify_throws (UpdateItemInput.price updates)
        \<and> \<not> accepted_quantity (UpdateItemInput.quantity updates)
      \<longrightarrow> updateItem pid updates c =
           (Inl (ValidationError
                  [Text ''quantity must be at least 1 and must be an integer'']), c))
   \<and> ((UpdateItemInput.quantity updates = JUndefined
         \<or> accepted_quantity (UpdateItemInput.quantity updates))
        \<and> UpdateItemInput.price updates \<noteq> JUndefined
        \<and> \<not> JSON_stringify_throws (UpdateItemInput.price updates)
        \<and> rejected_price (UpdateItemInput.price updates)
      \<longrightarrow> updateItem pid updates c =
           (Inl (ValidationError [Text ''price must be greater than 0'']), c))
   \<and> ((UpdateItemInput.quantity updates = JUndefined
         \<or> accepted_quantity (UpdateItemInput.quantity updates))
        \<and> (UpdateItemInput.price updates = JUndefined
           \<or> accepted_price (UpdateItemInput.price updates))
        \<and> (accepted_quantity (UpdateItemInput.quantity updates)
           \<or> accepted_price (UpdateItemInput.price updates))
        \<and> (\<forall>item \<in> set (Cart.items c). \<not> js_strict_eq (CartItem.productId item) pid)
      \<longrightarrow> updateItem pid updates c =
           (Inl (NotFoundError [Text ''Item with productId '', Interp pid,
                                Text '' not found in cart'']), c))
   \<and> (\<forall>e. fst (updateItem pid updates c) = Inl e \<longrightarrow> snd (updateItem pid updates c) = c)"
proof (intro conjI impI allI)
  assume "UpdateItemInput.quantity updates = JUndefined
      \<and> UpdateItemInput.price updates = JUndefined"
  then show "updateItem pid updates c =
      (Inl (ValidationError
             [Text ''At least one field (quantity or price) must be provided'']), c)"
    by (intro updateItem_invalid) (simp_all add: validateUpdateInput_chain)
next
  assume "UpdateItemInput.quantity updates \<noteq> JUndefined
        \<and> \<not> JSON_stringify_throws (UpdateItemInput.quantity updates)
        \<and> \<not> JSON_stringify_throws (UpdateItemInput.price updates)
        \<and> \<not> accepted_quantity (UpdateItemInput.quantity updates)"
  then show "updateItem pid updates c =
      (Inl (ValidationError
             [Text ''quantity must be at least 1 and must be an integer'']), c)"
    by (intro updateItem_invalid) (simp_all add: validateUpdateInput_chain)
next
  assume h: "(UpdateItemInput.quantity updates = JUndefined
         \<or> accepted_quantity (UpdateItemInput.quantity updates))
        \<and> UpdateItemInput.price updates \<noteq> JUndefined
        \<and> \<not> JSON_stringify_throws (UpdateItemInput.price updates)
        \<and> rejected_price (UpdateItemInput.price updates)"
  then have "\<not> JSON_stringify_throws (UpdateItemInput.quantity updates)"
    by (auto simp: accepted_quantity_serialised)
  with h show "updateItem pid updates c =
      (Inl (ValidationError [Text ''price must be greater than 0'']), c)"
    by (intro updateItem_invalid) (auto simp: validateUpdateInput_chain)
next
  assume "(UpdateItemInput.quantity updates = JUndefined
         \<or> accepted_quantity (UpdateItemInput.quantity updates))
        \<and> (UpdateItemInput.price updates = JUndefined
           \<or> accepted_price (UpdateItemInput.price updates))
        \<and> (accepted_quantity (UpdateItemInput.quantity updates)
           \<or> accepted_price (UpdateItemInput.price updates))
        \<and> (\<forall>item \<in> set (Cart.items c). \<not> js_strict_eq (CartItem.productId item) pid)"
  then have v: "validateUpdateInput updates = Inr ()"
    and idx: "findItemIndex c pid = - 1"
    by (auto simp: validateUpdateInput_chain findItemIndex_absent
        dest: accepted_price_not_rejected)
  from updateItem_validated [OF v] idx show "updateItem pid updates c =
           (Inl (NotFoundError [Text ''Item with productId '', Interp pid,
                                Text '' not found in cart'']), c)"
    by simp
next
  fix e assume "fst (updateItem pid updates c) = Inl e"
  then show "snd (updateItem pid updates c) = c"
    by (rule updateItem_throws_unchanged)
qed

theorem updateItem_validation_order_witness:
  "updateItem (Fin 1) no_fields \<lparr>Cart.items = [milk]\<rparr> =
     (Inl (ValidationError [Text ''At least one field (quantity or price) must be provided'']),
      \<lparr>Cart.items = [milk]\<rparr>)
   \<and> updateItem (Fin 999) quantity_zero \<lparr>Cart.items = [milk]\<rparr> =
     (Inl (ValidationError [Text ''quantity must be at least 1 and must be an integer'']),
      \<lparr>Cart.items = [milk]\<rparr>)
   \<and> updateItem (Fin 999) negative_price \<lparr>Cart.items = [milk]\<rparr> =
     (Inl (ValidationError [Text ''price must be greater than 0'']), \<lparr>Cart.items = [milk]\<rparr>)
   \<and> updateItem (Fin 999) set_quantity_4 \<lparr>Cart.items = [milk]\<rparr> =
     (Inl (NotFoundError [Text ''Item with productId '', Interp (Fin 999),
                          Text '' not found in cart'']), \<lparr>Cart.items = [milk]\<rparr>)
   \<and> snd (updateItem (Fin 999) set_quantity_4 \<lparr>Cart.items = [milk]\<rparr>) = \<lparr>Cart.items = [milk]\<rparr>"
proof -
  let ?c = "\<lparr>Cart.items = [milk]\<rparr>"
  have h1: "UpdateItemInput.quantity no_fields = JUndefined
            \<and> UpdateItemInput.price no_fields = JUndefined"
    by (simp add: no_fields_def)
  have h2: "UpdateItemInput.quantity quantity_zero \<noteq> JUndefined
            \<and> \<not> JSON_stringify_throws (UpdateItemInput.quantity quantity_zero)
            \<and> \<not> JSON_stringify_throws (UpdateItemInput.price quantity_zero)
            \<and> \<not> accepted_quantity (UpdateItemInput.quantity quantity_zero)"
    by (simp add: quantity_zero_def)
  have h3: "(UpdateItemInput.quantity negative_price = JUndefined
             \<or> accepted_quantity (UpdateItemInput.quantity negative_price))
            \<and> UpdateItemInput.price negative_price \<noteq> JUndefined
            \<and> \<not> JSON_stringify_throws (UpdateItemInput.price negative_price)
            \<and> rejected_price (UpdateItemInput.price negative_price)"
    by (simp add: negative_price_def js_le_def)
  have h4: "(UpdateItemInput.quantity set_quantity_4 = JUndefined
             \<or> accepted_quantity (UpdateItemInput.quantity set_quantity_4))
            \<and> (UpdateItemInput.price set_quantity_4 = JUndefined
               \<or> accepted_price (UpdateItemInput.price set_quantity_4))
            \<and> (accepted_quantity (UpdateItemInput.quantity set_quantity_4)
               \<or> accepted_price (UpdateItemInput.price set_quantity_4))
            \<and> (\<forall>item \<in> set (Cart.items ?c).
                  \<not> js_strict_eq (CartItem.productId item) (Fin 999))"
    by (simp add: set_quantity_4_def milk_def js_strict_eq_def)
  note T = updateItem_validation_order
  note e1 = T [of no_fields "Fin 1" ?c, THEN conjunct1, THEN mp, OF h1]
  note e2 = T [of quantity_zero "Fin 999" ?c, THEN conjunct2,
      THEN conjunct1, THEN mp, OF h2]
  note e3 = T [of negative_price "Fin 999" ?c, THEN conjunct2,
      THEN conjunct2, THEN conjunct1, THEN mp, OF h3]
  note e4 = T [of set_quantity_4 "Fin 999" ?c, THEN conjunct2,
      THEN conjunct2, THEN conjunct2, THEN conjunct1, THEN mp, OF h4]
  have f: "fst (updateItem (Fin 999) set_quantity_4 ?c) =
      Inl (NotFoundError [Text ''Item with productId '', Interp (Fin 999),
                          Text '' not found in cart''])"
    by (simp only: e4 fst_conv)
  note e5 = T [of set_quantity_4 "Fin 999" ?c, THEN conjunct2,
      THEN conjunct2, THEN conjunct2, THEN conjunct2, THEN spec, THEN mp, OF f]
  show ?thesis
    by (intro conjI e1 e2 e3 e4 e5)
qed

text \<open>
  The two messages that claim C7 states are not the ones thrown.
\<close>

theorem updateItem_message_counterexample:
  "fst (updateItem (Fin 1) no_fields \<lparr>Cart.items = [milk]\<rparr>) \<noteq>
     Inl (ValidationError [Text ''at least one field must be provided''])
   \<and> fst (updateItem (Fin 999) set_quantity_4 \<lparr>Cart.items = [milk]\<rparr>) \<noteq>
     Inl (NotFoundError [Text ''item with productId '', Interp (Fin 999), Text '' not found''])"
proof -
  have "fst (updateItem (Fin 1) no_fields \<lparr>Cart.items = [milk]\<rparr>) =
     Inl (ValidationError [Text ''At least one field (quantity or price) must be provided''])"
    by code_simp
  moreover have "fst (updateItem (Fin 999) set_quantity_4 \<lparr>Cart.items = [milk]\<rparr>) =
     Inl (NotFoundError [Text ''Item with productId '', Interp (Fin 999),
                         Text '' not found in cart''])"
    by code_simp
  ultimately show ?thesis by simp
qed

subsection \<open>C8: updateItem overwrites the supplied fields only\<close>

text \<open>
  Claim C8. When the update passes validation and the cart holds an item with the
  given productId (the first one, at index \<open>i\<close>), updateItem overwrites the quantity
  of that item if a quantity is supplied and its price if a price is supplied, and
  returns the snapshot of the cart it leaves: a field that is not supplied, the name
  and the productId keep their values, the list keeps its length and every other item
  stays at its index, unchanged.
\<close>

theorem updateItem_overwrites_supplied_fields:
  assumes valid: "validateUpdateInput updates = Inr ()"
    and i: "i < length (Cart.items c)"
    and found: "js_strict_eq (CartItem.productId (Cart.items c ! i)) pid"
    and first: "\<forall>j < i. \<not> js_strict_eq (CartItem.productId (Cart.items c ! j)) pid"
  shows "updateItem pid updates c =
           (let old = Cart.items c ! i;
                new = old\<lparr>CartItem.quantity :=
                            (if UpdateItemInput.quantity updates = JUndefined
                             then CartItem.quantity old
                             else num_of (UpdateItemInput.quantity updates)),
                          CartItem.price :=
                            (if UpdateItemInput.price updates = JUndefined
                             then CartItem.price old
                             else num_of (UpdateItemInput.price updates))\<rparr>;
                c' = c\<lparr>Cart.items := (Cart.items c)[i := new]\<rparr>
            in (Inr (getCart c'), c'))
       \<and> length (Cart.items (snd (updateItem pid updates c))) = length (Cart.items c)
       \<and> (\<forall>k < length (Cart.items c). k \<noteq> i
            \<longrightarrow> Cart.items (snd (updateItem pid updates c)) ! k = Cart.items c ! k)
       \<and> CartItem.productId (Cart.items (snd (updateItem pid updates c)) ! i)
           = CartItem.productId (Cart.items c ! i)
       \<and> CartItem.name (Cart.items (snd (updateItem pid updates c)) ! i)
           = CartItem.name (Cart.items c ! i)"
proof -
  have idx: "findItemIndex c pid = int i"
    using i found first by (intro findItemIndex_first) auto
  have eq: "updateItem pid updates c =
           (let old = Cart.items c ! i;
                new = old\<lparr>CartItem.quantity :=
                            (if UpdateItemInput.quantity updates = JUndefined
                             then CartItem.quantity old
                             else num_of (UpdateItemInput.quantity updates)),
                          CartItem.price :=
                            (if UpdateItemInput.price updates = JUndefined
                             then CartItem.price old
                             else num_of (UpdateItemInput.price updates))\<rparr>;
                c' = c\<lparr>Cart.items := (Cart.items c)[i := new]\<rparr>
            in (Inr (getCart c'), c'))"
    using idx i by (simp add: updateItem_validated [OF valid] Let_def)
  show ?thesis
    using i by (simp add: eq Let_def)
qed

theorem updateItem_overwrites_supplied_fields_witness:
  "validateUpdateInput set_quantity_4 = Inr ()
   \<and> validateUpdateInput set_both = Inr ()
   \<and> js_strict_eq (CartItem.productId ([milk, bread] ! 1)) (Fin 2)
   \<and> \<not> js_strict_eq (CartItem.productId ([milk, bread] ! 0)) (Fin 2)
   \<and> updateItem (Fin 2) set_quantity_4 \<lparr>Cart.items = [milk, bread]\<rparr> =
       (Inr (getCart \<lparr>Cart.items = [milk, bread\<lparr>CartItem.quantity := Fin 4\<rparr>]\<rparr>),
        \<lparr>Cart.items = [milk, bread\<lparr>CartItem.quantity := Fin 4\<rparr>]\<rparr>)
   \<and> updateItem (Fin 2) set_both \<lparr>Cart.items = [milk, bread]\<rparr> =
       (Inr (getCart \<lparr>Cart.items = [milk, bread\<lparr>CartItem.price := Fin (3 / 4),
                                                  CartItem.quantity := Fin 7\<rparr>]\<rparr>),
        \<lparr>Cart.items = [milk, bread\<lparr>CartItem.price := Fin (3 / 4),
                                     CartItem.quantity := Fin 7\<rparr>]\<rparr>)"
proof -
  have v1: "validateUpdateInput set_quantity_4 = Inr ()" by code_simp
  have v2: "validateUpdateInput set_both = Inr ()" by code_simp
  have i: "1 < length (Cart.items \<lparr>Cart.items = [milk, bread]\<rparr>)" by simp
  have f: "js_strict_eq (CartItem.productId (Cart.items \<lparr>Cart.items = [milk, bread]\<rparr> ! 1)) (Fin 2)"
    by (simp add: bread_def js_strict_eq_def)
  have n: "\<forall>j < 1. \<not> js_strict_eq (CartItem.productId (Cart.items \<lparr>Cart.items = [milk, bread]\<rparr> ! j)) (Fin 2)"
    by (simp add: milk_def js_strict_eq_def)
  have a: "updateItem (Fin 2) set_quantity_4 \<lparr>Cart.items = [milk, bread]\<rparr> =
       (Inr (getCart \<lparr>Cart.items = [milk, bread\<lparr>CartItem.quantity := Fin 4\<rparr>]\<rparr>),
        \<lparr>Cart.items = [milk, bread\<lparr>CartItem.quantity := Fin 4\<rparr>]\<rparr>)"
    using updateItem_overwrites_supplied_fields [OF v1 i f n, THEN conjunct1]
    by (simp add: set_quantity_4_def Let_def bread_def)
  have b: "updateItem (Fin 2) set_both \<lparr>Cart.items = [milk, bread]\<rparr> =
       (Inr (getCart \<lparr>Cart.items = [milk, bread\<lparr>CartItem.price := Fin (3 / 4),
                                                  CartItem.quantity := Fin 7\<rparr>]\<rparr>),
        \<lparr>Cart.items = [milk, bread\<lparr>CartItem.price := Fin (3 / 4),
                                     CartItem.quantity := Fin 7\<rparr>]\<rparr>)"
    using updateItem_overwrites_supplied_fields [OF v2 i f n, THEN conjunct1]
    by (simp add: set_both_def Let_def bread_def)
  show ?thesis
    using v1 v2 f n a b by simp
qed

subsection \<open>C9: removeItem, and the absent productId\<close>

text \<open>
  Claim C9. removeItem on a productId held by the cart deletes that item (the first
  one with this productId, at index \<open>i\<close>), the other items keeping their order, and
  returns the snapshot of the cart it leaves. When no item has the productId,
  removeItem throws a NotFoundError and so does updateItem called with fields that pass
  validation, and both leave the cart as it was.
\<close>

theorem removeItem_removes_or_fails:
  "(\<forall>i. i < length (Cart.items c)
         \<and> js_strict_eq (CartItem.productId (Cart.items c ! i)) pid
         \<and> (\<forall>j < i. \<not> js_strict_eq (CartItem.productId (Cart.items c ! j)) pid)
       \<longrightarrow> removeItem pid c =
            (let c' = c\<lparr>Cart.items := take i (Cart.items c) @ drop (Suc i) (Cart.items c)\<rparr>
             in (Inr (getCart c'), c')))
   \<and> ((\<forall>item \<in> set (Cart.items c). \<not> js_strict_eq (CartItem.productId item) pid)
       \<longrightarrow> removeItem pid c =
            (Inl (NotFoundError [Text ''Item with productId '', Interp pid,
                                 Text '' not found in cart'']), c)
         \<and> (validateUpdateInput updates = Inr ()
            \<longrightarrow> updateItem pid updates c =
                 (Inl (NotFoundError [Text ''Item with productId '', Interp pid,
                                      Text '' not found in cart'']), c)))"
proof (intro conjI allI impI)
  fix i
  assume "i < length (Cart.items c)
         \<and> js_strict_eq (CartItem.productId (Cart.items c ! i)) pid
         \<and> (\<forall>j < i. \<not> js_strict_eq (CartItem.productId (Cart.items c ! j)) pid)"
  then have "findItemIndex c pid = int i"
    by (intro findItemIndex_first) auto
  then show "removeItem pid c =
            (let c' = c\<lparr>Cart.items := take i (Cart.items c) @ drop (Suc i) (Cart.items c)\<rparr>
             in (Inr (getCart c'), c'))"
    by (simp add: removeItem_def Let_def)
next
  assume "\<forall>item \<in> set (Cart.items c). \<not> js_strict_eq (CartItem.productId item) pid"
  then have idx: "findItemIndex c pid = - 1"
    by (rule findItemIndex_absent)
  then show "removeItem pid c =
            (Inl (NotFoundError [Text ''Item with productId '', Interp pid,
                                 Text '' not found in cart'']), c)"
    by (simp add: removeItem_def)
  assume "validateUpdateInput updates = Inr ()"
  from updateItem_validated [OF this] idx show "updateItem pid updates c =
                 (Inl (NotFoundError [Text ''Item with productId '', Interp pid,
                                      Text '' not found in cart'']), c)"
    by simp
qed

theorem removeItem_removes_or_fails_witness:
  "removeItem (Fin 1) \<lparr>Cart.items = [bread, milk, bread]\<rparr> =
     (Inr (getCart \<lparr>Cart.items = [bread, bread]\<rparr>), \<lparr>Cart.items = [bread, bread]\<rparr>)
   \<and> removeItem (Fin 999) \<lparr>Cart.items = [milk, bread]\<rparr> =
       (Inl (NotFoundError [Text ''Item with productId '', Interp (Fin 999),
                            Text '' not found in cart'']), \<lparr>Cart.items = [milk, bread]\<rparr>)
   \<and> validateUpdateInput set_quantity_4 = Inr ()
   \<and> updateItem (Fin 999) set_quantity_4 \<lparr>Cart.items = [milk, bread]\<rparr> =
       (Inl (NotFoundError [Text ''Item with productId '', Interp (Fin 999),
                            Text '' not found in cart'']), \<lparr>Cart.items = [milk, bread]\<rparr>)"
proof -
  have v: "validateUpdateInput set_quantity_4 = Inr ()" by code_simp
  have a: "removeItem (Fin 1) \<lparr>Cart.items = [bread, milk, bread]\<rparr> =
     (Inr (getCart \<lparr>Cart.items = [bread, bread]\<rparr>), \<lparr>Cart.items = [bread, bread]\<rparr>)"
    using removeItem_removes_or_fails [of "\<lparr>Cart.items = [bread, milk, bread]\<rparr>" "Fin 1",
        THEN conjunct1, rule_format, of 1]
    by (simp add: milk_def bread_def js_strict_eq_def Let_def)
  note absent = removeItem_removes_or_fails [of "\<lparr>Cart.items = [milk, bread]\<rparr>" "Fin 999"
        set_quantity_4, THEN conjunct2, THEN mp]
  have n: "\<forall>item \<in> set (Cart.items \<lparr>Cart.items = [milk, bread]\<rparr>).
             \<not> js_strict_eq (CartItem.productId item) (Fin 999)"
    by (simp add: milk_def bread_def js_strict_eq_def)
  show ?thesis
    using a v absent [OF n, THEN conjunct1] absent [OF n, THEN conjunct2, THEN mp, OF v]
    by simp
qed

subsection \<open>C10: the productId and falsiness\<close>

text \<open>
  Claim C10, as amended. The productId \<open>0\<close>, a number that is present, is rejected by
  the check of the productId, and so are \<open>-0\<close> and \<open>NaN\<close>: addItem leaves the cart as
  it was and, the name being one that the logger serialises, throws the ValidationError
  of the productId. Every other number, negative numbers and fractions among them,
  passes the check of the productId, and when the other fields are valid addItem
  succeeds and the cart it leaves holds an item with that productId.
\<close>

theorem productId_falsiness:
  assumes pid: "AddItemInput.productId input = JNum n"
  shows "(n = Fin 0 \<or> n = NZero \<or> n = NaN
            \<longrightarrow> validateAddItemInput input =
                 Inl (ValidationError [Text ''productId is required and must be a number''])
              \<and> snd (addItem input c) = c
              \<and> (\<not> JSON_stringify_throws (AddItemInput.name input)
                 \<longrightarrow> addItem input c =
                      (Inl (ValidationError
                             [Text ''productId is required and must be a number'']), c)))
       \<and> (n \<noteq> Fin 0 \<and> n \<noteq> NZero \<and> n \<noteq> NaN
            \<longrightarrow> validateAddItemInput input \<noteq>
                 Inl (ValidationError [Text ''productId is required and must be a number''])
              \<and> (accepted_name (AddItemInput.name input)
                  \<and> accepted_price (AddItemInput.price input)
                  \<and> accepted_quantity (AddItemInput.quantity input)
                 \<longrightarrow> (\<exists>r. fst (addItem input c) = Inr r)
                    \<and> n \<in> CartItem.productId ` set (Cart.items (snd (addItem input c)))))"
proof (intro conjI impI)
  assume "n = Fin 0 \<or> n = NZero \<or> n = NaN"
  then have "\<not> accepted_productId (AddItemInput.productId input)"
    using pid by auto
  then show invalid: "validateAddItemInput input =
      Inl (ValidationError [Text ''productId is required and must be a number''])"
    by (simp add: validateAddItemInput_chain)
  then show "snd (addItem input c) = c"
    by (simp add: addItem_def split: sum.splits)
  assume "\<not> JSON_stringify_throws (AddItemInput.name input)"
  with invalid show "addItem input c =
      (Inl (ValidationError [Text ''productId is required and must be a number'']), c)"
    by (intro addItem_invalid) (simp_all add: pid)
next
  assume n: "n \<noteq> Fin 0 \<and> n \<noteq> NZero \<and> n \<noteq> NaN"
  then have ok: "accepted_productId (AddItemInput.productId input)"
    using pid by simp
  then show "validateAddItemInput input \<noteq>
      Inl (ValidationError [Text ''productId is required and must be a number''])"
    by (simp add: validateAddItemInput_chain)
  assume rest: "accepted_name (AddItemInput.name input)
      \<and> accepted_price (AddItemInput.price input)
      \<and> accepted_quantity (AddItemInput.quantity input)"
  with ok have valid: "validateAddItemInput input = Inr ()"
    by (auto simp: validateAddItemInput_chain dest: accepted_price_not_rejected)
  then show "\<exists>r. fst (addItem input c) = Inr r"
    by (simp add: addItem_validated Let_def)
  show "n \<in> CartItem.productId ` set (Cart.items (snd (addItem input c)))"
  proof (cases "0 \<le> findItemIndex c n")
    case True
    let ?i = "nat (findItemIndex c n)"
    from True have i: "?i < length (Cart.items c)"
      and eq: "js_strict_eq (CartItem.productId (Cart.items c ! ?i)) n"
      unfolding findItemIndex_def by (auto dest: findIndex_found)
    from eq n have "CartItem.productId (Cart.items c ! ?i) = n"
      by (intro js_strict_eq_truthy) auto
    with i True show ?thesis
      by (auto simp: addItem_validated [OF valid] Let_def pid set_conv_nth nth_list_update
          image_iff intro!: exI [of _ ?i])
  next
    case False
    then show ?thesis
      by (simp add: addItem_validated [OF valid] Let_def pid)
  qed
qed

theorem productId_falsiness_witness:
  "validateAddItemInput productId_zero =
     Inl (ValidationError [Text ''productId is required and must be a number''])
   \<and> snd (addItem productId_zero \<lparr>Cart.items = [milk]\<rparr>) = \<lparr>Cart.items = [milk]\<rparr>
   \<and> addItem productId_zero \<lparr>Cart.items = [milk]\<rparr> =
     (Inl (ValidationError [Text ''productId is required and must be a number'']),
      \<lparr>Cart.items = [milk]\<rparr>)
   \<and> validateAddItemInput productId_minus_3 \<noteq>
       Inl (ValidationError [Text ''productId is required and must be a number''])
   \<and> Fin (- 3) \<in> CartItem.productId `
         set (Cart.items (snd (addItem productId_minus_3 \<lparr>Cart.items = [milk]\<rparr>)))
   \<and> validateAddItemInput productId_1_5 \<noteq>
       Inl (ValidationError [Text ''productId is required and must be a number''])
   \<and> Fin (3 / 2) \<in> CartItem.productId `
         set (Cart.items (snd (addItem productId_1_5 \<lparr>Cart.items = [milk]\<rparr>)))"
proof -
  have p0: "AddItemInput.productId productId_zero = JNum (Fin 0)"
    by (simp add: productId_zero_def)
  have p1: "AddItemInput.productId productId_minus_3 = JNum (Fin (- 3))"
    by (simp add: productId_minus_3_def)
  have p2: "AddItemInput.productId productId_1_5 = JNum (Fin (3 / 2))"
    by (simp add: productId_1_5_def)
  have z: "Fin 0 = Fin 0 \<or> Fin 0 = NZero \<or> Fin 0 = NaN" by simp
  have s0: "\<not> JSON_stringify_throws (AddItemInput.name productId_zero)"
    by (simp add: productId_zero_def milk_input_def)
  have n1: "Fin (- 3) \<noteq> Fin 0 \<and> Fin (- 3) \<noteq> NZero \<and> Fin (- 3) \<noteq> NaN" by simp
  have n2: "Fin (3 / 2) \<noteq> Fin 0 \<and> Fin (3 / 2) \<noteq> NZero \<and> Fin (3 / 2) \<noteq> NaN" by simp
  have r1: "accepted_name (AddItemInput.name productId_minus_3)
            \<and> accepted_price (AddItemInput.price productId_minus_3)
            \<and> accepted_quantity (AddItemInput.quantity productId_minus_3)"
    by code_simp
  have r2: "accepted_name (AddItemInput.name productId_1_5)
            \<and> accepted_price (AddItemInput.price productId_1_5)
            \<and> accepted_quantity (AddItemInput.quantity productId_1_5)"
    by code_simp
  note T0 = productId_falsiness [OF p0, of "\<lparr>Cart.items = [milk]\<rparr>", THEN conjunct1, THEN mp, OF z]
  note T1 = productId_falsiness [OF p1, of "\<lparr>Cart.items = [milk]\<rparr>", THEN conjunct2, THEN mp, OF n1]
  note T2 = productId_falsiness [OF p2, of "\<lparr>Cart.items = [milk]\<rparr>", THEN conjunct2, THEN mp, OF n2]
  show ?thesis
    by (intro conjI T0 [THEN conjunct1] T0 [THEN conjunct2, THEN conjunct1]
        T0 [THEN conjunct2, THEN conjunct2, THEN mp, OF s0]
        T1 [THEN conjunct1] T1 [THEN conjunct2, THEN mp, OF r1, THEN conjunct2]
        T2 [THEN conjunct1] T2 [THEN conjunct2, THEN mp, OF r2, THEN conjunct2])
qed

text \<open>
  Claim C10 as it is stated lets every number other than zero pass: \<open>NaN\<close> is a number,
  it is not zero, and it is rejected.
\<close>

theorem productId_NaN_counterexample:
  "typeof (JNum NaN) = ''number'' \<and> \<not> is_zero NaN
   \<and> validateAddItemInput productId_NaN =
       Inl (ValidationError [Text ''productId is required and must be a number''])"
  by code_simp

end
